theory Spec2Isabelle
  imports Main "HOL-Library.Word" "HOL-Library.Code_Target_Nat"
begin

unbundle bit_operations_syntax

section \<open>Common data\<close>

text \<open>
  A Node \<open>Buffer\<close> is a list of bytes. JavaScript numbers that hold lengths, ports,
  counters and sequence numbers are natural numbers. A JavaScript exception is a value of
  \<open>error\<close>; a computation that can throw yields an \<open>outcome\<close>, which keeps the state
  reached at the throw, since side effects made before a throw persist.
\<close>

type_synonym byte = "8 word"
type_synonym bytes = "byte list"

datatype error = RangeError | TypeError | LibError | SocketError | JsError string

datatype 's outcome = Ok 's | Raise error 's

text \<open>\<open>try { m } catch (e) { }\<close>: the exception is swallowed, the state is kept.\<close>

fun catch :: "'s outcome \<Rightarrow> 's outcome" where
  "catch (Ok s) = Ok s"
| "catch (Raise e s) = Ok s"

fun returns :: "'s outcome \<Rightarrow> bool" where
  "returns (Ok s) = True"
| "returns (Raise e s) = False"

fun state_of :: "'s outcome \<Rightarrow> 's" where
  "state_of (Ok s) = s"
| "state_of (Raise e s) = s"

text \<open>\<open>buf.readUInt16BE(off)\<close> throws a range error unless two bytes are there.\<close>

definition readUInt16BE :: "bytes \<Rightarrow> nat \<Rightarrow> error + nat" where
  "readUInt16BE buf off =
     (if off + 2 \<le> length buf
      then Inr (unat (buf ! off) * 256 + unat (buf ! (off + 1)))
      else Inl RangeError)"

section \<open>STUN client: inbound classification (src/sip/client.ts, StunClient.handleMessage)\<close>

record rinfo =
  address :: string
  rport :: nat

datatype stun_rx =
    BindingSuccess rinfo
  | BindingError "nat option"
  | StunMethod nat
  | Ignored

text \<open>
  The result is what the handler did with the datagram: emitted \<open>binding-success\<close>,
  logged a Binding Error with the code read at offset 26 (\<open>None\<close> is the string
  \<open>'unknown'\<close>), logged another STUN method, or nothing. The two reads are the places
  where the handler can throw.
\<close>

definition handleMessage :: "bytes \<Rightarrow> rinfo \<Rightarrow> error + stun_rx" where
  "handleMessage msg r =
     (case readUInt16BE msg 0 of
        Inl e \<Rightarrow> Inl e
      | Inr ty \<Rightarrow>
          if ty = 0x0101 then Inr (BindingSuccess r)
          else if ty = 0x0111 then
            (if length msg > 20
             then (case readUInt16BE msg (20 + 4 + 2) of
                     Inl e \<Rightarrow> Inl e
                   | Inr errCode \<Rightarrow> Inr (BindingError (Some errCode)))
             else Inr (BindingError None))
          else if ty < 0x0200 then Inr (StunMethod ty)
          else Inr Ignored)"

section \<open>Media bridge (MediaBridge)\<close>

record relay =
  ip :: string
  port :: nat
  token :: "bytes option"
  username :: "string option"
  callCreator :: "string option"

record media_keys =
  masterKey :: bytes
  masterSalt :: bytes

record rtp_header =
  version :: nat
  padding :: bool
  extension :: bool
  marker :: bool
  payloadType :: nat
  sequenceNumber :: nat
  timestamp :: nat
  ssrc :: nat

record rtp_packet =
  header :: rtp_header
  payload :: bytes

text \<open>
  The \<open>werift-rtp\<close> library is not part of the repository: its parser and its SRTP
  transforms are parameters. Each may throw; \<open>srtpDecrypt\<close> may also return a falsy value.
\<close>

record werift =
  deSerialize :: "bytes \<Rightarrow> error + rtp_packet"
  srtpDecrypt :: "media_keys \<Rightarrow> bytes \<Rightarrow> error + bytes option"
  srtpEncrypt :: "media_keys \<Rightarrow> bytes \<Rightarrow> rtp_header \<Rightarrow> error + bytes"

record datagram =
  data :: bytes
  toPort :: nat
  toHost :: string

record media_bridge =
  udpSocket :: bool
  socketClosed :: bool
  srtpSession :: "media_keys option"
  authKeys :: "media_keys option"
  activeRelay :: "relay option"
  stunClient :: bool
  keepAlive :: bool
  packetsRx :: nat
  localPort :: nat
  asteriskHost :: string
  asteriskRtpPort :: nat
  relayEndpoints :: "relay list option"
  silenceInterval :: bool
  outSeq :: nat
  outSsrc :: nat
  silenceTs :: nat
  udpOut :: "datagram list"
  stunLog :: "stun_rx list"

text \<open>
  \<open>socket.send(buf, port, host)\<close> of \<open>dgram\<close> throws synchronously on a closed socket
  and on a port outside 1..65535; otherwise the datagram is queued.
\<close>

definition udpSend :: "bytes \<Rightarrow> nat \<Rightarrow> string \<Rightarrow> media_bridge \<Rightarrow> media_bridge outcome" where
  "udpSend buf p h b =
     (if socketClosed b \<or> p = 0 \<or> 65536 \<le> p then Raise SocketError b
      else Ok (b\<lparr>udpOut := udpOut b @ [\<lparr>data = buf, toPort = p, toHost = h\<rparr>]\<rparr>))"

definition stopSilence :: "media_bridge \<Rightarrow> media_bridge" where
  "stopSilence b = (if silenceInterval b then b\<lparr>silenceInterval := False\<rparr> else b)"

definition validPt :: "nat \<Rightarrow> nat" where
  "validPt pt = (if pt = 111 \<or> pt = 0 \<or> pt = 8 \<or> pt = 96 then pt else 111)"

definition mkHeader :: "media_bridge \<Rightarrow> nat \<Rightarrow> nat \<Rightarrow> bool \<Rightarrow> rtp_header" where
  "mkHeader b pt ts m =
     \<lparr>version = 2, padding = False, extension = False, marker = m,
      payloadType = validPt pt, sequenceNumber = outSeq b,
      timestamp = ts, ssrc = outSsrc b\<rparr>"

text \<open>
  \<open>sendRtp\<close>: the shared outbound path. Without an active relay, a session or a socket
  nothing happens and no sequence number is consumed. Otherwise the header takes
  \<open>outSeq\<close>, \<open>outSeq\<close> advances, and the encrypted packet is sent; the surrounding
  \<open>try\<close> swallows a throw of the library or of the socket.
\<close>

definition sendRtp_body :: "werift \<Rightarrow> media_keys \<Rightarrow> relay \<Rightarrow> bytes \<Rightarrow> nat \<Rightarrow> nat \<Rightarrow> bool
    \<Rightarrow> media_bridge \<Rightarrow> media_bridge outcome" where
  "sendRtp_body lib keys target pl pt ts m b =
     (let hdr = mkHeader b pt ts m;
          b1 = b\<lparr>outSeq := (outSeq b + 1) mod 65535\<rparr>
      in case srtpEncrypt lib keys pl hdr of
           Inl e \<Rightarrow> Raise e b1
         | Inr encrypted \<Rightarrow> udpSend encrypted (port target) (ip target) b1)"

definition sendRtp :: "werift \<Rightarrow> bytes \<Rightarrow> nat \<Rightarrow> nat \<Rightarrow> bool \<Rightarrow> media_bridge \<Rightarrow> media_bridge outcome" where
  "sendRtp lib pl pt ts m b =
     (case activeRelay b of
        None \<Rightarrow> Ok b
      | Some target \<Rightarrow>
          (case srtpSession b of
             None \<Rightarrow> Ok b
           | Some keys \<Rightarrow>
               if \<not> udpSocket b then Ok b
               else catch (sendRtp_body lib keys target pl pt ts m b)))"

definition forwardToWhatsApp :: "werift \<Rightarrow> bytes \<Rightarrow> media_bridge \<Rightarrow> media_bridge outcome" where
  "forwardToWhatsApp lib msg b0 =
     (let b = stopSilence b0
      in if srtpSession b = None then Ok b
         else catch (case deSerialize lib msg of
                       Inl e \<Rightarrow> Raise e b
                     | Inr pkt \<Rightarrow>
                         sendRtp lib (payload pkt) 111 (timestamp (header pkt))
                           (marker (header pkt)) b))"

definition rewritePt :: "bytes \<Rightarrow> bytes" where
  "rewritePt dec = dec[1 := ((dec ! 1) AND 0x80) OR 111]"

definition knownRelay :: "media_bridge \<Rightarrow> rinfo \<Rightarrow> relay option" where
  "knownRelay b r =
     (case relayEndpoints b of
        None \<Rightarrow> None
      | Some rs \<Rightarrow> find (\<lambda>x. ip x = address r \<and> port x = rport r) rs)"

definition handleMedia_decrypted :: "bytes \<Rightarrow> rinfo \<Rightarrow> media_bridge \<Rightarrow> media_bridge outcome" where
  "handleMedia_decrypted dec r b =
     (let k = knownRelay b r;
          b1 = b\<lparr>packetsRx := packetsRx b + 1,
                 activeRelay := Some \<lparr>ip = address r, port = rport r,
                   token = (case k of None \<Rightarrow> None | Some x \<Rightarrow> token x),
                   username = (case k of None \<Rightarrow> None | Some x \<Rightarrow> username x),
                   callCreator = None\<rparr>\<rparr>
      in if udpSocket b1
         then udpSend (rewritePt dec) (asteriskRtpPort b1) (asteriskHost b1) b1
         else Ok b1)"

definition handleMedia :: "werift \<Rightarrow> bytes \<Rightarrow> rinfo \<Rightarrow> media_bridge \<Rightarrow> media_bridge outcome" where
  "handleMedia lib msg r b =
     (if address r = asteriskHost b then
        forwardToWhatsApp lib msg
          (if asteriskRtpPort b = 0 then b\<lparr>asteriskRtpPort := rport r\<rparr> else b)
      else
        (case srtpSession b of
           None \<Rightarrow> Ok b
         | Some keys \<Rightarrow>
             catch (case srtpDecrypt lib keys msg of
                      Inl e \<Rightarrow> Raise e b
                    | Inr None \<Rightarrow> Ok b
                    | Inr (Some dec) \<Rightarrow> handleMedia_decrypted dec r b)))"

text \<open>
  \<open>demux\<close>: \<open>msg[0]\<close> of an empty datagram is \<open>undefined\<close>, and the debug line calls
  \<open>first.toString(16)\<close> on it before any classification, which throws. The STUN branch
  calls the client's handler with no \<open>try\<close> around it.
\<close>

definition stunHandle :: "bytes \<Rightarrow> rinfo \<Rightarrow> media_bridge \<Rightarrow> media_bridge outcome" where
  "stunHandle msg r b =
     (if stunClient b
      then (case handleMessage msg r of
              Inl e \<Rightarrow> Raise e b
            | Inr ev \<Rightarrow> Ok (b\<lparr>stunLog := stunLog b @ [ev]\<rparr>))
      else Ok b)"

definition demux :: "werift \<Rightarrow> bytes \<Rightarrow> rinfo \<Rightarrow> media_bridge \<Rightarrow> media_bridge outcome" where
  "demux lib msg r b =
     (case msg of
        [] \<Rightarrow> Raise TypeError b
      | first # rest \<Rightarrow>
          if 0 \<le> unat first \<and> unat first \<le> 3 then stunHandle msg r b
          else handleMedia lib msg r b)"

text \<open>One tick of the silence timer, and \<open>startSilence\<close> with the random start value.\<close>

definition silenceTick :: "werift \<Rightarrow> media_bridge \<Rightarrow> media_bridge outcome" where
  "silenceTick lib b =
     (if srtpSession b = None then Ok b
      else (case sendRtp lib [0xF8, 0xFF, 0xFE] 111 (silenceTs b) True b of
              Ok b1 \<Rightarrow> Ok (b1\<lparr>silenceTs := silenceTs b1 + 320\<rparr>)
            | Raise e b1 \<Rightarrow> Raise e b1))"

definition startSilence :: "nat \<Rightarrow> media_bridge \<Rightarrow> media_bridge" where
  "startSilence rnd b =
     (if silenceInterval b then b
      else (if outSeq b = 0 then b\<lparr>outSeq := rnd\<rparr> else b)\<lparr>silenceInterval := True\<rparr>)"

text \<open>
  Construction and lifecycle, as \<open>CallBridge.bridgeCall\<close> uses them: the constructor's
  field initialisers, \<open>setStunClient\<close>, \<open>start\<close> (socket bound, keep-alive timer set),
  \<open>initialize\<close>, \<open>updateRelays\<close>, \<open>updateAsteriskRtp\<close> and \<open>stop\<close>.
\<close>

definition newMediaBridge :: "nat \<Rightarrow> string \<Rightarrow> media_bridge" where
  "newMediaBridge lport host =
     \<lparr>udpSocket = False, socketClosed = False, srtpSession = None, authKeys = None, activeRelay = None,
      stunClient = False, keepAlive = False, packetsRx = 0, localPort = lport,
      asteriskHost = host, asteriskRtpPort = 0, relayEndpoints = None,
      silenceInterval = False, outSeq = 0, outSsrc = 123456, silenceTs = 0,
      udpOut = [], stunLog = []\<rparr>"

definition setStunClient :: "media_bridge \<Rightarrow> media_bridge" where
  "setStunClient b = b\<lparr>stunClient := True\<rparr>"

definition start :: "media_bridge \<Rightarrow> media_bridge" where
  "start b = b\<lparr>udpSocket := True, keepAlive := True\<rparr>"

definition initialize :: "media_keys \<Rightarrow> media_bridge \<Rightarrow> media_bridge" where
  "initialize keys b = b\<lparr>authKeys := Some keys, srtpSession := Some keys\<rparr>"

definition updateRelays :: "relay list \<Rightarrow> media_bridge \<Rightarrow> media_bridge" where
  "updateRelays rs b = b\<lparr>relayEndpoints := Some rs\<rparr>"

definition updateAsteriskRtp :: "nat \<Rightarrow> media_bridge \<Rightarrow> media_bridge" where
  "updateAsteriskRtp p b = b\<lparr>asteriskRtpPort := p\<rparr>"

definition stop :: "media_bridge \<Rightarrow> media_bridge" where
  "stop b = (stopSilence b)\<lparr>keepAlive := False, socketClosed := udpSocket b \<or> socketClosed b\<rparr>"

text \<open>
  A stand-in for the library, for evaluating the bridge on concrete datagrams: the SRTP
  transforms are the identity and the parser rejects everything.
\<close>

definition stub_werift :: werift where
  "stub_werift =
     \<lparr>deSerialize = (\<lambda>m. Inl LibError),
      srtpDecrypt = (\<lambda>k m. Inr (Some m)),
      srtpEncrypt = (\<lambda>k p h. Inr p)\<rparr>"

definition stub_keys :: media_keys where
  "stub_keys = \<lparr>masterKey = replicate 16 0, masterSalt = replicate 14 0\<rparr>"

definition stub_rinfo :: rinfo where
  "stub_rinfo = \<lparr>address = ''157.240.0.1'', rport = 3478\<rparr>"

text \<open>A bridge as \<open>bridgeCall\<close> leaves it once keys were found and media arrived.\<close>

definition running_bridge :: media_bridge where
  "running_bridge =
     (initialize stub_keys (start (setStunClient (newMediaBridge 10000 ''10.0.0.5''))))
       \<lparr>activeRelay := Some \<lparr>ip = ''157.240.0.1'', port = 3478, token = None,
                                username = None, callCreator = None\<rparr>\<rparr>"

text \<open>The silence timer firing \<open>n\<close> times in a row.\<close>

fun silenceTicks :: "werift \<Rightarrow> nat \<Rightarrow> media_bridge \<Rightarrow> media_bridge" where
  "silenceTicks lib 0 b = b"
| "silenceTicks lib (Suc n) b = silenceTicks lib n (state_of (silenceTick lib b))"

section \<open>STUN client: Binding Request builder (StunClient.sendBindingRequest)\<close>

text \<open>
  Buffer primitives of Node. \<open>writeUInt16BE\<close> and \<open>writeUInt32BE\<close> throw a range
  error on a value that does not fit or on an offset past the end; \<open>copy\<close> writes as
  many bytes of the source as fit behind the target offset.
\<close>

fun bindE :: "error + 'a \<Rightarrow> ('a \<Rightarrow> error + 'b) \<Rightarrow> error + 'b" where
  "bindE (Inl e) f = Inl e"
| "bindE (Inr x) f = f x"

definition alloc :: "nat \<Rightarrow> bytes" where
  "alloc n = replicate n 0"

definition writeUInt16BE :: "nat \<Rightarrow> nat \<Rightarrow> bytes \<Rightarrow> error + bytes" where
  "writeUInt16BE v off buf =
     (if 65535 < v \<or> length buf < off + 2 then Inl RangeError
      else Inr (buf[off := of_nat (v div 256), off + 1 := of_nat (v mod 256)]))"

definition writeUInt32BE :: "nat \<Rightarrow> nat \<Rightarrow> bytes \<Rightarrow> error + bytes" where
  "writeUInt32BE v off buf =
     (if 4294967295 < v \<or> length buf < off + 4 then Inl RangeError
      else Inr (buf[off := of_nat (v div 16777216),
                    off + 1 := of_nat (v div 65536 mod 256),
                    off + 2 := of_nat (v div 256 mod 256),
                    off + 3 := of_nat (v mod 256)]))"

definition bufCopy :: "bytes \<Rightarrow> bytes \<Rightarrow> nat \<Rightarrow> bytes" where
  "bufCopy src tgt off =
     take off tgt @ take (length tgt - off) src @ drop (off + length src) tgt"

text \<open>\<open>Buffer.from(s)\<close> of a string: its UTF-8 bytes; a \<open>string\<close> here is that byte sequence.\<close>

definition utf8 :: "string \<Rightarrow> bytes" where
  "utf8 s = map of_char s"

text \<open>The CRC-32 of the file: the table entry is eight steps of the reflected polynomial.\<close>

definition crc_step :: "32 word \<Rightarrow> 32 word" where
  "crc_step c = (if c AND 1 \<noteq> 0 then 0xEDB88320 XOR drop_bit 1 c else drop_bit 1 c)"

definition CRC32_TABLE :: "32 word \<Rightarrow> 32 word" where
  "CRC32_TABLE i = (crc_step ^^ 8) i"

definition crc32 :: "bytes \<Rightarrow> 32 word" where
  "crc32 buf =
     fold (\<lambda>x crc. drop_bit 8 crc XOR CRC32_TABLE ((crc XOR ucast x) AND 0xFF)) buf 0xFFFFFFFF
       XOR 0xFFFFFFFF"

definition STUN_MAGIC_COOKIE :: nat where
  "STUN_MAGIC_COOKIE = 0x2112A442"

definition STUN_BINDING_REQUEST :: nat where
  "STUN_BINDING_REQUEST = 0x0001"

record stun_client =
  socket :: bool

text \<open>
  The attributes, each built as the source builds it: allocate, write type and length,
  copy the value. \<open>hmac\<close> stands for \<open>crypto.createHmac('sha1', key)\<close> applied to a
  message; the transaction id and the eight ICE-CONTROLLED bytes come from
  \<open>crypto.randomBytes\<close> and are arguments.
\<close>

definition usernameAttr :: "string \<Rightarrow> error + bytes" where
  "usernameAttr u =
     (let uBuf = utf8 u;
          pad = (4 - (length uBuf mod 4)) mod 4
      in bindE (writeUInt16BE 0x0006 0 (alloc (4 + length uBuf + pad))) (\<lambda>a1.
         bindE (writeUInt16BE (length uBuf) 2 a1) (\<lambda>a2.
         Inr (bufCopy uBuf a2 4))))"

definition iceControlledAttr :: "bytes \<Rightarrow> error + bytes" where
  "iceControlledAttr rnd =
     bindE (writeUInt16BE 0x8029 0 (alloc 12)) (\<lambda>a1.
     bindE (writeUInt16BE 8 2 a1) (\<lambda>a2.
     Inr (bufCopy rnd a2 4)))"

definition priorityAttr :: "error + bytes" where
  "priorityAttr =
     bindE (writeUInt16BE 0x0024 0 (alloc 8)) (\<lambda>a1.
     bindE (writeUInt16BE 4 2 a1) (\<lambda>a2.
     writeUInt32BE 1845494271 4 a2))"

definition useCandidateAttr :: "error + bytes" where
  "useCandidateAttr =
     bindE (writeUInt16BE 0x0025 0 (alloc 4)) (\<lambda>a1.
     writeUInt16BE 0 2 a1)"

definition integrityAttr :: "bytes \<Rightarrow> error + bytes" where
  "integrityAttr sig =
     bindE (writeUInt16BE 0x0008 0 (alloc 24)) (\<lambda>a1.
     bindE (writeUInt16BE 20 2 a1) (\<lambda>a2.
     Inr (bufCopy sig a2 4)))"

definition fingerprintAttr :: "nat \<Rightarrow> error + bytes" where
  "fingerprintAttr fp =
     bindE (writeUInt16BE 0x8028 0 (alloc 8)) (\<lambda>a1.
     bindE (writeUInt16BE 4 2 a1) (\<lambda>a2.
     writeUInt32BE fp 4 a2))"

definition lenAttrs :: "bytes list \<Rightarrow> nat" where
  "lenAttrs attrs = fold (\<lambda>b a. a + length b) attrs 0"

text \<open>
  Step 5 of the source. Only here are the magic cookie and the transaction id written
  into the header, next to the provisional length; without a token the step is skipped.
\<close>

definition integrityStep :: "(bytes \<Rightarrow> bytes \<Rightarrow> bytes) \<Rightarrow> bytes \<Rightarrow> bytes option
    \<Rightarrow> bytes \<times> bytes list \<Rightarrow> error + bytes \<times> bytes list" where
  "integrityStep hmac transactionId tok ha =
     (case ha of (hdr, attrs) \<Rightarrow>
        (case tok of
           None \<Rightarrow> Inr (hdr, attrs)
         | Some key \<Rightarrow>
             (let lenForHmac = lenAttrs attrs + 24
              in bindE (writeUInt16BE lenForHmac 2 hdr) (\<lambda>h1.
                 bindE (writeUInt32BE STUN_MAGIC_COOKIE 4 h1) (\<lambda>h2.
                 let h3 = bufCopy transactionId h2 8;
                     msgToSign = h3 @ concat attrs;
                     sig = hmac key msgToSign
                 in bindE (integrityAttr sig) (\<lambda>attr.
                    Inr (h3, attrs @ [attr])))))))"

definition fingerprintStep :: "bytes \<times> bytes list \<Rightarrow> error + bytes \<times> bytes list" where
  "fingerprintStep ha =
     (case ha of (hdr, attrs) \<Rightarrow>
        (let lenFinal = lenAttrs attrs + 8
         in bindE (writeUInt16BE lenFinal 2 hdr) (\<lambda>h1.
            let msgToCrc = h1 @ concat attrs;
                crcVal = crc32 msgToCrc;
                fingerprint = crcVal XOR 0x5354554e
            in bindE (fingerprintAttr (unat fingerprint)) (\<lambda>attr.
               Inr (h1, attrs @ [attr])))))"

text \<open>
  The packet of a Binding Request, or the exception of a write. \<open>if (username)\<close> is
  false on the empty string as on \<open>undefined\<close>; \<open>if (token)\<close> is true on every Buffer.
\<close>

definition buildBindingRequest :: "(bytes \<Rightarrow> bytes \<Rightarrow> bytes) \<Rightarrow> bytes \<Rightarrow> bytes
    \<Rightarrow> string option \<Rightarrow> bytes option \<Rightarrow> bool \<Rightarrow> error + bytes" where
  "buildBindingRequest hmac transactionId iceRnd uname tok useCandidate =
     bindE (writeUInt16BE STUN_BINDING_REQUEST 0 (alloc 20)) (\<lambda>hdr.
     bindE (case uname of
              None \<Rightarrow> Inr []
            | Some u \<Rightarrow> if u = [] then Inr []
                        else bindE (usernameAttr u) (\<lambda>a. Inr [a])) (\<lambda>attrs1.
     bindE (iceControlledAttr iceRnd) (\<lambda>ice.
     bindE priorityAttr (\<lambda>prio.
     bindE (if useCandidate then bindE useCandidateAttr (\<lambda>a. Inr [a]) else Inr []) (\<lambda>uc.
     bindE (integrityStep hmac transactionId tok (hdr, attrs1 @ [ice] @ [prio] @ uc)) (\<lambda>ha5.
     bindE (fingerprintStep ha5) (\<lambda>ha6.
     Inr (fst ha6 @ concat (snd ha6)))))))))"

text \<open>
  \<open>sendBindingRequest\<close>: nothing without a socket; otherwise the packet goes to the
  relay's address, or the exception leaves the function.
\<close>

definition sendBindingRequest :: "(bytes \<Rightarrow> bytes \<Rightarrow> bytes) \<Rightarrow> stun_client \<Rightarrow> bytes \<Rightarrow> bytes
    \<Rightarrow> relay \<Rightarrow> string option \<Rightarrow> bytes option \<Rightarrow> bool \<Rightarrow> error + datagram option" where
  "sendBindingRequest hmac c transactionId iceRnd rl uname tok useCandidate =
     (if \<not> socket c then Inr None
      else bindE (buildBindingRequest hmac transactionId iceRnd uname tok useCandidate) (\<lambda>packet.
           if port rl = 0 \<or> 65536 \<le> port rl then Inl SocketError
           else Inr (Some \<lparr>data = packet, toPort = port rl, toHost = ip rl\<rparr>)))"

text \<open>
  The layout as the specification words it: a 20-byte header (type, length, magic
  cookie, transaction id) and type-length-value attributes padded to four bytes, in the
  fixed order, MESSAGE-INTEGRITY over the message with the provisional length and
  FINGERPRINT over the message with the final one. It is compared with the builder below.
\<close>

definition u16be :: "nat \<Rightarrow> bytes" where
  "u16be v = [of_nat (v div 256), of_nat (v mod 256)]"

definition u32be :: "nat \<Rightarrow> bytes" where
  "u32be v = [of_nat (v div 16777216), of_nat (v div 65536 mod 256),
              of_nat (v div 256 mod 256), of_nat (v mod 256)]"

definition stunAttr :: "nat \<Rightarrow> bytes \<Rightarrow> bytes" where
  "stunAttr ty v = u16be ty @ u16be (length v) @ v @ replicate ((4 - length v mod 4) mod 4) 0"

definition stunHeader :: "nat \<Rightarrow> bytes \<Rightarrow> bytes" where
  "stunHeader len tid = u16be 0x0001 @ u16be len @ u32be 0x2112A442 @ tid"

definition bindingRequestLayout :: "(bytes \<Rightarrow> bytes \<Rightarrow> bytes) \<Rightarrow> bytes \<Rightarrow> bytes
    \<Rightarrow> string option \<Rightarrow> bytes \<Rightarrow> bool \<Rightarrow> bytes" where
  "bindingRequestLayout hmac tid iceRnd uname key useCandidate =
     (let body0 = (case uname of
                     None \<Rightarrow> []
                   | Some u \<Rightarrow> if u = [] then [] else stunAttr 0x0006 (utf8 u))
                  @ stunAttr 0x8029 iceRnd
                  @ stunAttr 0x0024 (u32be 1845494271)
                  @ (if useCandidate then stunAttr 0x0025 [] else []);
          mi = stunAttr 0x0008 (hmac key (stunHeader (length body0 + 24) tid @ body0));
          body1 = body0 @ mi;
          fp = stunAttr 0x8028
                 (u32be (unat (crc32 (stunHeader (length body1 + 8) tid @ body1) XOR 0x5354554e)))
      in stunHeader (length body1 + 8) tid @ body1 @ fp)"

text \<open>A stand-in for HMAC-SHA1, for evaluation: twenty bytes that depend on nothing.\<close>

definition stub_hmac :: "bytes \<Rightarrow> bytes \<Rightarrow> bytes" where
  "stub_hmac key msg = replicate 20 0xAA"

definition stub_relay :: relay where
  "stub_relay = \<lparr>ip = ''157.240.0.1'', port = 3478, token = None, username = None,
                  callCreator = None\<rparr>"

section \<open>SRTP key extractor (key-extractor: extractSrtpKeys and its helpers)\<close>

text \<open>
  The extractor takes a value of type \<open>any\<close>. The shapes it tells apart are the shapes
  of the model: the content of a stanza node is absent, a \<open>Buffer\<close>, a plain
  \<open>Uint8Array\<close>, a JSON-serialised buffer \<open>{type: 'Buffer', data: [...]}\<close>, a string,
  an array of child nodes, or a single child node. An absent tag is the empty string,
  which the code cannot tell from it.
\<close>

datatype content =
    Absent
  | Buf bytes
  | U8 bytes
  | Tagged bytes
  | Text string
  | Children "node list"
  | Child node
and node = Node (tag: string) (attrs: "(string \<times> string) list") (content: content)

text \<open>\<open>node.attrs?.name\<close>, tested for truthiness: present and not the empty string.\<close>

definition attr :: "(string \<times> string) list \<Rightarrow> string \<Rightarrow> string option" where
  "attr as name = (case map_of as name of None \<Rightarrow> None | Some v \<Rightarrow> if v = [] then None else Some v)"

text \<open>
  \<open>node.content?.data ? Buffer.from(node.content.data) : Buffer.from(node.content || [])\<close>.
  An array of nodes becomes as many zero bytes (each element converts to \<open>NaN\<close>); a
  single node object is rejected by \<open>Buffer.from\<close> with a type error.
\<close>

fun toBuffer :: "content \<Rightarrow> error + bytes" where
  "toBuffer Absent = Inr []"
| "toBuffer (Buf b) = Inr b"
| "toBuffer (U8 b) = Inr b"
| "toBuffer (Tagged d) = Inr d"
| "toBuffer (Text s) = Inr (utf8 s)"
| "toBuffer (Children ns) = Inr (replicate (length ns) 0)"
| "toBuffer (Child n) = Inl TypeError"

fun truthy :: "content \<Rightarrow> bool" where
  "truthy Absent = False"
| "truthy (Text s) = (s \<noteq> [])"
| "truthy c = True"

definition slice :: "nat \<Rightarrow> nat \<Rightarrow> bytes \<Rightarrow> bytes" where
  "slice a b buf = take (b - a) (drop a buf)"

text \<open>
  \<open>Buffer.from(s, 'base64')\<close> of Node: characters outside the alphabet (either variant)
  are skipped, the first \<open>=\<close> ends the input, four characters give three bytes, and a
  trailing group of three or two gives two or one.
\<close>

definition unbase64 :: "char \<Rightarrow> nat option" where
  "unbase64 c =
     (let n = (of_char c :: nat) in
      if 65 \<le> n \<and> n \<le> 90 then Some (n - 65)
      else if 97 \<le> n \<and> n \<le> 122 then Some (n - 71)
      else if 48 \<le> n \<and> n \<le> 57 then Some (n + 4)
      else if n = 43 \<or> n = 45 then Some 62
      else if n = 47 \<or> n = 95 then Some 63
      else None)"

fun b64groups :: "nat list \<Rightarrow> bytes" where
  "b64groups (a # b # c # d # rest) =
     [of_nat (a * 4 + b div 16), of_nat ((b mod 16) * 16 + c div 4), of_nat ((c mod 4) * 64 + d)]
       @ b64groups rest"
| "b64groups [a, b, c] = [of_nat (a * 4 + b div 16), of_nat ((b mod 16) * 16 + c div 4)]"
| "b64groups [a, b] = [of_nat (a * 4 + b div 16)]"
| "b64groups xs = []"

definition base64 :: "string \<Rightarrow> bytes" where
  "base64 s = b64groups (List.map_filter unbase64 (takeWhile (\<lambda>c. c \<noteq> CHR ''='') s))"

text \<open>
  \<open>buf.toString()\<close> decodes UTF-8 into UTF-16 code units: a well-formed sequence of one
  to four bytes gives its code point (two surrogates above U+FFFF), and every maximal
  ill-formed part gives U+FFFD, after which decoding resumes at the byte that did not
  fit. The base64 decoder reads a code unit through a cast to \<open>uint8_t\<close>, so it sees
  the low byte of each unit.
\<close>

definition cont :: "byte \<Rightarrow> bool" where
  "cont b = (0x80 \<le> b \<and> b \<le> 0xBF)"

fun utf8Decode :: "bytes \<Rightarrow> nat list" where
  "utf8Decode [] = []"
| "utf8Decode (b # rest) =
     (if b < 0x80 then unat b # utf8Decode rest
      else if 0xC2 \<le> b \<and> b \<le> 0xDF then
        (case rest of
           [] \<Rightarrow> [0xFFFD]
         | c1 # r1 \<Rightarrow>
             if cont c1 then (unat b mod 32 * 64 + unat c1 mod 64) # utf8Decode r1
             else 0xFFFD # utf8Decode rest)
      else if 0xE0 \<le> b \<and> b \<le> 0xEF then
        (case rest of
           [] \<Rightarrow> [0xFFFD]
         | c1 # r1 \<Rightarrow>
             if (if b = 0xE0 then 0xA0 else 0x80) \<le> c1 \<and> c1 \<le> (if b = 0xED then 0x9F else 0xBF) then
               (case r1 of
                  [] \<Rightarrow> [0xFFFD]
                | c2 # r2 \<Rightarrow>
                    if cont c2
                    then ((unat b mod 16 * 64 + unat c1 mod 64) * 64 + unat c2 mod 64) # utf8Decode r2
                    else 0xFFFD # utf8Decode r1)
             else 0xFFFD # utf8Decode rest)
      else if 0xF0 \<le> b \<and> b \<le> 0xF4 then
        (case rest of
           [] \<Rightarrow> [0xFFFD]
         | c1 # r1 \<Rightarrow>
             if (if b = 0xF0 then 0x90 else 0x80) \<le> c1 \<and> c1 \<le> (if b = 0xF4 then 0x8F else 0xBF) then
               (case r1 of
                  [] \<Rightarrow> [0xFFFD]
                | c2 # r2 \<Rightarrow>
                    if cont c2 then
                      (case r2 of
                         [] \<Rightarrow> [0xFFFD]
                       | c3 # r3 \<Rightarrow>
                           if cont c3
                           then (((unat b mod 8 * 64 + unat c1 mod 64) * 64 + unat c2 mod 64) * 64
                                   + unat c3 mod 64) # utf8Decode r3
                           else 0xFFFD # utf8Decode r2)
                    else 0xFFFD # utf8Decode r1)
             else 0xFFFD # utf8Decode rest)
      else 0xFFFD # utf8Decode rest)"

definition utf16 :: "nat \<Rightarrow> nat list" where
  "utf16 cp =
     (if cp < 0x10000 then [cp]
      else [0xD800 + (cp - 0x10000) div 1024, 0xDC00 + (cp - 0x10000) mod 1024])"

definition toString :: "bytes \<Rightarrow> nat list" where
  "toString b = concat (map utf16 (utf8Decode b))"

definition lowBytes :: "nat list \<Rightarrow> string" where
  "lowBytes units = map char_of units"

text \<open>The decoded call object: \<open>call.callKey\<close> and \<open>call.relays\<close> in the shapes the code tests for.\<close>

datatype ckdata = CKStr string | CKTagged bytes | CKBytes bytes | CKOther

datatype ip_json = IpAbsent | IpArr "nat list" | IpStr string

datatype tok_json = TokAbsent | TokBuf bytes | TokArr bytes | TokStr string | TokTagged bytes | TokOther

record proto_relay =
  rip :: ip_json
  rprt :: nat
  rtoken :: tok_json

text \<open>
  An offer is \<open>undefined\<close>, a stanza node, or an object with a \<open>call\<close> property. The
  \<open>call\<close> object is also the root of the traversal, so it carries the node fields too
  (all absent in a decoded protocol buffer).
\<close>

datatype offer =
    NoOffer
  | Stanza node
  | Proto (call_callKey: "ckdata option") (call_relays: "proto_relay list option") (call_node: node)

record extracted_keys = media_keys +
  exRelayEndpoints :: "relay list"

definition callKeyBuffer :: "ckdata \<Rightarrow> bytes option" where
  "callKeyBuffer d =
     (case d of
        CKStr s \<Rightarrow> if s = [] then None else Some (base64 s)
      | CKTagged xs \<Rightarrow> Some xs
      | CKBytes xs \<Rightarrow> Some xs
      | CKOther \<Rightarrow> None)"

definition extractKeysFromDecryptedProto :: "offer \<Rightarrow> media_keys option" where
  "extractKeysFromDecryptedProto decryptedJson =
     (case decryptedJson of
        Proto (Some callKeyData) rls nd \<Rightarrow>
          (case callKeyBuffer callKeyData of
             None \<Rightarrow> None
           | Some callKey \<Rightarrow>
               if 30 \<le> length callKey
               then Some \<lparr>masterKey = slice 0 16 callKey, masterSalt = slice 16 30 callKey\<rparr>
               else None)
      | _ \<Rightarrow> None)"

text \<open>Decimal digits of a number, for \<open>`${content[0]}.${content[1]}...`\<close> and \<open>join('.')\<close>.\<close>

function showNat :: "nat \<Rightarrow> string" where
  "showNat n = (if n < 10 then [char_of (48 + n)]
                else showNat (n div 10) @ [char_of (48 + n mod 10)])"
  by pat_completeness auto
termination
  by (relation "measure id") auto

declare showNat.simps [simp del]

fun joinDot :: "nat list \<Rightarrow> string" where
  "joinDot [] = []"
| "joinDot [x] = showNat x"
| "joinDot (x # xs) = showNat x @ ''.'' @ joinDot xs"

definition parseRelayEndpoint :: "node \<Rightarrow> relay option" where
  "parseRelayEndpoint item =
     (case (case content item of Tagged d \<Rightarrow> Some d | Buf b \<Rightarrow> Some b | _ \<Rightarrow> None) of
        None \<Rightarrow> None
      | Some c \<Rightarrow>
          if 6 \<le> length c
          then Some \<lparr>ip = joinDot [unat (c ! 0), unat (c ! 1), unat (c ! 2), unat (c ! 3)],
                      port = unat (c ! 4) * 256 + unat (c ! 5),
                      token = (if 6 < length c then Some (drop 6 c) else None),
                      username = None, callCreator = None\<rparr>
          else None)"

text \<open>Step 1: relays listed in the decoded call object.\<close>

definition protoToken :: "tok_json \<Rightarrow> bytes option" where
  "protoToken t =
     (case t of
        TokAbsent \<Rightarrow> None
      | TokBuf b \<Rightarrow> Some b
      | TokArr a \<Rightarrow> Some a
      | TokStr s \<Rightarrow> if s = [] then None else Some (base64 s)
      | TokTagged d \<Rightarrow> Some d
      | TokOther \<Rightarrow> None)"

definition protoRelay :: "proto_relay \<Rightarrow> relay option" where
  "protoRelay r =
     (let ipv = (case rip r of IpAbsent \<Rightarrow> [] | IpArr xs \<Rightarrow> joinDot xs | IpStr s \<Rightarrow> s)
      in if ipv \<noteq> [] \<and> rprt r \<noteq> 0
         then Some \<lparr>ip = ipv, port = rprt r, token = protoToken (rtoken r),
                     username = None, callCreator = None\<rparr>
         else None)"

definition protoRelays :: "offer \<Rightarrow> relay list" where
  "protoRelays off =
     (case off of
        Proto ck (Some rs) nd \<Rightarrow> List.map_filter protoRelay rs
      | _ \<Rightarrow> [])"

text \<open>The token table is a JavaScript \<open>Map\<close>: insertion order, a later \<open>set\<close> of a key replaces in place.\<close>

fun mapSet :: "'k \<Rightarrow> 'v \<Rightarrow> ('k \<times> 'v) list \<Rightarrow> ('k \<times> 'v) list" where
  "mapSet k v [] = [(k, v)]"
| "mapSet k v (p # ps) = (if fst p = k then (k, v) # ps else p # mapSet k v ps)"

text \<open>Pass 1: what \<open>collectTokens\<close> does at one node, then the recursion into the content.\<close>

definition tokenStep :: "string \<Rightarrow> (string \<times> string) list \<Rightarrow> content \<Rightarrow> (string \<times> bytes) list
    \<Rightarrow> error + (string \<times> bytes) list" where
  "tokenStep tg as c tokens =
     (case (if tg = ''token'' then attr as ''id'' else None) of
        None \<Rightarrow> Inr tokens
      | Some tid \<Rightarrow>
          bindE (toBuffer c) (\<lambda>b. Inr (if 0 < length b then mapSet tid b tokens else tokens)))"

fun collectTokens :: "node \<Rightarrow> (string \<times> bytes) list \<Rightarrow> error + (string \<times> bytes) list"
  and collectTokens_content :: "content \<Rightarrow> (string \<times> bytes) list \<Rightarrow> error + (string \<times> bytes) list"
  and collectTokens_each :: "node list \<Rightarrow> (string \<times> bytes) list \<Rightarrow> error + (string \<times> bytes) list"
where
  "collectTokens (Node tg as c) tokens =
     bindE (tokenStep tg as c tokens) (\<lambda>t1. collectTokens_content c t1)"
| "collectTokens_content (Children ns) tokens = collectTokens_each ns tokens"
| "collectTokens_content (Child n) tokens =
     (if tag n \<noteq> [] then collectTokens n tokens else Inr tokens)"
| "collectTokens_content Absent tokens = Inr tokens"
| "collectTokens_content (Buf b) tokens = Inr tokens"
| "collectTokens_content (U8 b) tokens = Inr tokens"
| "collectTokens_content (Tagged d) tokens = Inr tokens"
| "collectTokens_content (Text s) tokens = Inr tokens"
| "collectTokens_each [] tokens = Inr tokens"
| "collectTokens_each (n # ns) tokens =
     bindE (collectTokens n tokens) (\<lambda>t1. collectTokens_each ns t1)"

text \<open>
  Pass 2: \<open>traverse\<close>. The state is the relay list and \<open>audioKeys\<close>; the last key-bearing
  element with at least 30 bytes wins.
\<close>

definition relayStep :: "(string \<times> bytes) list \<Rightarrow> node \<Rightarrow> relay list \<Rightarrow> relay list" where
  "relayStep tokens nd rs =
     (if tag nd = ''te'' \<or> tag nd = ''relay'' then
        (case parseRelayEndpoint nd of
           None \<Rightarrow> rs
         | Some endpoint \<Rightarrow>
             rs @ [case (token endpoint, attr (attrs nd) ''token_id'') of
                     (None, Some tid) \<Rightarrow> endpoint\<lparr>token := map_of tokens tid\<rparr>
                   | _ \<Rightarrow> endpoint])
      else rs)"

definition keyStep :: "node \<Rightarrow> bytes option \<Rightarrow> error + bytes option" where
  "keyStep nd audioKeys =
     (if (tag nd = ''hbh_key'' \<or> tag nd = ''enc'' \<or> tag nd = ''call-key'') \<and> truthy (content nd)
      then bindE (toBuffer (content nd)) (\<lambda>b. Inr (if 30 \<le> length b then Some b else audioKeys))
      else Inr audioKeys)"

fun traverse :: "(string \<times> bytes) list \<Rightarrow> node \<Rightarrow> relay list \<times> bytes option
      \<Rightarrow> error + relay list \<times> bytes option"
  and traverse_content :: "(string \<times> bytes) list \<Rightarrow> content \<Rightarrow> relay list \<times> bytes option
      \<Rightarrow> error + relay list \<times> bytes option"
  and traverse_each :: "(string \<times> bytes) list \<Rightarrow> node list \<Rightarrow> relay list \<times> bytes option
      \<Rightarrow> error + relay list \<times> bytes option"
where
  "traverse tokens (Node tg as c) st =
     (let rs = relayStep tokens (Node tg as c) (fst st)
      in bindE (keyStep (Node tg as c) (snd st)) (\<lambda>ak. traverse_content tokens c (rs, ak)))"
| "traverse_content tokens (Children ns) st = traverse_each tokens ns st"
| "traverse_content tokens (Child n) st =
     (if tag n \<noteq> [] then traverse tokens n st else Inr st)"
| "traverse_content tokens Absent st = Inr st"
| "traverse_content tokens (Buf b) st = Inr st"
| "traverse_content tokens (U8 b) st = Inr st"
| "traverse_content tokens (Tagged d) st = Inr st"
| "traverse_content tokens (Text s) st = Inr st"
| "traverse_each tokens [] st = Inr st"
| "traverse_each tokens (n # ns) st =
     bindE (traverse tokens n st) (\<lambda>s1. traverse_each tokens ns s1)"

text \<open>
  The end of \<open>extractSrtpKeys\<close>: a 40-byte blob is taken for base64 text and decoded
  first; the split needs 30 bytes; without a key from the traversal the decoded call
  object is asked; relays that all lack a token get the first token of the table.
\<close>

definition finalizeKeys :: "bytes option \<Rightarrow> media_keys option" where
  "finalizeKeys audioKeys =
     (case audioKeys of
        None \<Rightarrow> None
      | Some ak \<Rightarrow>
          (let keysBuffer = (if length ak = 40 then base64 (lowBytes (toString ak)) else ak)
           in if 30 \<le> length keysBuffer
              then Some \<lparr>masterKey = slice 0 16 keysBuffer, masterSalt = slice 16 30 keysBuffer\<rparr>
              else None))"

definition fallbackKeys :: "offer \<Rightarrow> media_keys option \<Rightarrow> media_keys option" where
  "fallbackKeys off keys =
     (case keys of
        Some k \<Rightarrow> Some k
      | None \<Rightarrow> (case off of Proto ck rs nd \<Rightarrow> extractKeysFromDecryptedProto off | _ \<Rightarrow> None))"

definition fallbackToken :: "(string \<times> bytes) list \<Rightarrow> relay list \<Rightarrow> relay list" where
  "fallbackToken tokens rs =
     (if 0 < length rs \<and> 0 < length tokens \<and> \<not> list_ex (\<lambda>r. token r \<noteq> None) rs
      then map (\<lambda>r. r\<lparr>token := Some (snd (hd tokens))\<rparr>) rs
      else rs)"

text \<open>
  \<open>scanOffer\<close> is the body of the \<open>try\<close> up to the final test: the relay list and the
  keys found, or the exception. \<open>extractSrtpKeys\<close> returns an object only with keys.
\<close>

definition rootNode :: "offer \<Rightarrow> node option" where
  "rootNode off = (case off of NoOffer \<Rightarrow> None | Stanza n \<Rightarrow> Some n | Proto ck rs nd \<Rightarrow> Some nd)"

definition scanOffer :: "offer \<Rightarrow> error + relay list \<times> media_keys option" where
  "scanOffer off =
     (case rootNode off of
        None \<Rightarrow> Inr ([], None)
      | Some root \<Rightarrow>
          bindE (collectTokens root []) (\<lambda>tokens.
          bindE (traverse tokens root (protoRelays off, None)) (\<lambda>st.
          Inr (fallbackToken tokens (fst st), fallbackKeys off (finalizeKeys (snd st))))))"

definition extractSrtpKeys :: "offer \<Rightarrow> extracted_keys option" where
  "extractSrtpKeys off =
     (case scanOffer off of
        Inl e \<Rightarrow> None
      | Inr (rs, None) \<Rightarrow> None
      | Inr (rs, Some k) \<Rightarrow>
          Some \<lparr>masterKey = masterKey k, masterSalt = masterSalt k, exRelayEndpoints = rs\<rparr>)"

text \<open>The payload buffers of the key-bearing elements of a stanza tree.\<close>

fun keyBlobs :: "node \<Rightarrow> bytes set"
  and keyBlobs_content :: "content \<Rightarrow> bytes set"
  and keyBlobs_each :: "node list \<Rightarrow> bytes set"
where
  "keyBlobs (Node tg as c) =
     (if (tg = ''hbh_key'' \<or> tg = ''enc'' \<or> tg = ''call-key'') \<and> truthy c
      then (case toBuffer c of Inl e \<Rightarrow> {} | Inr b \<Rightarrow> {b}) else {})
       \<union> keyBlobs_content c"
| "keyBlobs_content (Children ns) = keyBlobs_each ns"
| "keyBlobs_content (Child n) = keyBlobs n"
| "keyBlobs_content Absent = {}"
| "keyBlobs_content (Buf b) = {}"
| "keyBlobs_content (U8 b) = {}"
| "keyBlobs_content (Tagged d) = {}"
| "keyBlobs_content (Text s) = {}"
| "keyBlobs_each [] = {}"
| "keyBlobs_each (n # ns) = keyBlobs n \<union> keyBlobs_each ns"

text \<open>
  The nodes that both passes visit, in the order they visit them: the node itself, then
  every element of an array content, or the single node object under \<open>content\<close> when
  it has a \<open>tag\<close>.
\<close>

fun visited :: "node \<Rightarrow> node list"
  and visited_content :: "content \<Rightarrow> node list"
  and visited_each :: "node list \<Rightarrow> node list"
where
  "visited (Node tg as c) = Node tg as c # visited_content c"
| "visited_content (Children ns) = visited_each ns"
| "visited_content (Child n) = (if tag n \<noteq> [] then visited n else [])"
| "visited_content Absent = []"
| "visited_content (Buf b) = []"
| "visited_content (U8 b) = []"
| "visited_content (Tagged d) = []"
| "visited_content (Text s) = []"
| "visited_each [] = []"
| "visited_each (n # ns) = visited n @ visited_each ns"

text \<open>
  The nodes whose payload a pass reads: a \<open>token\<close> element with an \<open>id\<close> in pass 1, a
  key-bearing element with a content in pass 2. The payload is what \<open>Buffer.from\<close>
  makes of the content; a node object as content makes it throw.
\<close>

definition readsToken :: "node \<Rightarrow> bool" where
  "readsToken nd = (tag nd = ''token'' \<and> attr (attrs nd) ''id'' \<noteq> None)"

definition readsKey :: "node \<Rightarrow> bool" where
  "readsKey nd =
     ((tag nd = ''hbh_key'' \<or> tag nd = ''enc'' \<or> tag nd = ''call-key'') \<and> truthy (content nd))"

definition unreadable :: "node \<Rightarrow> bool" where
  "unreadable nd = (case toBuffer (content nd) of Inl e \<Rightarrow> True | Inr b \<Rightarrow> False)"

definition payload :: "node \<Rightarrow> bytes" where
  "payload nd = (case toBuffer (content nd) of Inl e \<Rightarrow> [] | Inr b \<Rightarrow> b)"

text \<open>
  A tree is rejected when a payload that is read cannot be read. The blob adopted from a
  tree is the payload of the last key-bearing element visited that has 30 bytes or more.
\<close>

definition rejected :: "node \<Rightarrow> bool" where
  "rejected root = list_ex (\<lambda>nd. (readsToken nd \<or> readsKey nd) \<and> unreadable nd) (visited root)"

definition adopted :: "node \<Rightarrow> bytes option" where
  "adopted root =
     (case filter (\<lambda>b. 30 \<le> length b) (map payload (filter readsKey (visited root))) of
        [] \<Rightarrow> None
      | b # bs \<Rightarrow> Some (last (b # bs)))"

definition keep :: "bytes option \<Rightarrow> node \<Rightarrow> bytes option" where
  "keep ak nd = (if readsKey nd \<and> 30 \<le> length (payload nd) then Some (payload nd) else ak)"

text \<open>
  An offer stanza as the gateway stores it: a relay, a 30-byte \<open>hbh_key\<close>, a 32-byte
  \<open>enc\<close> one level further down, and a 3-byte \<open>call-key\<close>.
\<close>

definition nested_offer :: node where
  "nested_offer = Node ''offer'' [(''call-id'', ''c1'')]
     (Children [Node ''te'' [] (Buf [1, 2, 3, 4, 0x0D, 0x96]),
                Node ''hbh_key'' [] (Buf (replicate 30 7)),
                Node ''audio'' [] (Child (Node ''enc'' [] (Buf [1, 2, 3, 4, 5, 6, 7, 8, 9, 10, 11, 12, 13, 14, 15, 16, 17, 18, 19, 20, 21, 22, 23, 24, 25, 26, 27, 28, 29, 30, 31, 32]))),
                Node ''call-key'' [] (Buf [1, 2, 3])])"

section \<open>Signalling: WhatsAppClient, CallHandler, CallBridge\<close>

text \<open>
  The three objects are wired by events at construction (\<open>index.ts\<close>): the handler
  listens to the client, the bridge to the handler. Their state is one record. What lies
  outside the repository is the record \<open>env\<close>: the Baileys socket (message tags, JID
  normalisation, whether the n-th hand-over of a stanza is rejected), the SIP client,
  the configuration and the sources of randomness. \<open>sent\<close> lists the stanzas the socket
  took, in order. An \<open>async\<close> function is modelled run to its end.
\<close>

record env =
  generateMessageTag :: "nat \<Rightarrow> string"
  jidNormalizedUser :: "string \<Rightarrow> string"
  sendFails :: "nat \<Rightarrow> bool"
  meId :: string
  hmacSha1 :: "bytes \<Rightarrow> bytes \<Rightarrow> bytes"
  randomBytes :: "nat \<Rightarrow> nat \<Rightarrow> bytes"
  mathRandom :: "nat \<Rightarrow> nat \<Rightarrow> nat"
  makeCallFails :: "string \<Rightarrow> bool"
  rtpPortMin :: nat
  cfgAsteriskHost :: string
  dateNow :: nat

record call_state =
  gotTransport :: bool
  gotRelay :: bool
  accepted :: bool

text \<open>
  An entry of \<open>decryptedOffers\<close>: the stored offer with the properties \<open>_stanzaId\<close>,
  \<open>_from\<close> and \<open>_callCreator\<close> that the sniffer adds to a decoded one.
\<close>

record stored_offer =
  body :: offer
  u_stanzaId :: "string option"
  u_from :: "string option"
  u_callCreator :: "string option"

record call_event =
  callId :: string
  callFrom :: string
  evTimestamp :: nat
  isVideo :: bool
  isGroup :: bool
  evOffer :: "stored_offer option"
  evCallCreator :: "string option"

text \<open>The call record that Baileys hands to the \<open>call\<close> listener.\<close>

record wa_call =
  wid :: string
  wfrom :: string
  wstatus :: string
  wisVideo :: bool
  wisGroup :: bool

record bridge =
  mediaBridge :: media_bridge
  bridgeStun :: stun_client
  sipSessionId :: string
  whatsappCall :: call_event

record gateway =
  sock :: bool
  decryptedOffers :: "string \<rightharpoonup> stored_offer"
  callState :: "string \<rightharpoonup> call_state"
  publicInfo :: "(string \<times> nat) option"
  sent :: "node list"
  attempts :: nat
  tags :: nat
  clientEvents :: "(string \<times> string) list"
  activeCalls :: "string \<rightharpoonup> call_event"
  handlerEvents :: "(string \<times> string) list"
  activeBridges :: "string \<rightharpoonup> bridge"
  bridgeEvents :: "(string \<times> string) list"
  sipCalls :: "(string \<times> string \<times> nat) list"
  entropy :: nat

fun bindO :: "'s outcome \<Rightarrow> ('s \<Rightarrow> 's outcome) \<Rightarrow> 's outcome" where
  "bindO (Ok s) f = f s"
| "bindO (Raise e s) f = Raise e s"

text \<open>A string argument or property tested for truthiness: absent and empty are alike.\<close>

definition nonEmpty :: "string option \<Rightarrow> string option" where
  "nonEmpty x = (case x of None \<Rightarrow> None | Some s \<Rightarrow> if s = [] then None else Some s)"

definition orElse :: "string option \<Rightarrow> string option \<Rightarrow> string option" where
  "orElse x y = (case nonEmpty x of None \<Rightarrow> y | Some s \<Rightarrow> Some s)"

subsection \<open>WhatsAppClient\<close>

definition sockSend :: "env \<Rightarrow> node \<Rightarrow> gateway \<Rightarrow> gateway outcome" where
  "sockSend B nd g =
     (if sendFails B (attempts g) then Raise SocketError (g\<lparr>attempts := attempts g + 1\<rparr>)
      else Ok (g\<lparr>attempts := attempts g + 1, sent := sent g @ [nd]\<rparr>))"

definition sendNode :: "env \<Rightarrow> node \<Rightarrow> gateway \<Rightarrow> gateway outcome" where
  "sendNode B nd g = (if \<not> sock g then Ok g else sockSend B nd g)"

definition newTag :: "env \<Rightarrow> gateway \<Rightarrow> string \<times> gateway" where
  "newTag B g = (generateMessageTag B (tags g), g\<lparr>tags := tags g + 1\<rparr>)"

definition emitClient :: "string \<Rightarrow> string \<Rightarrow> gateway \<Rightarrow> gateway" where
  "emitClient ev cid g = g\<lparr>clientEvents := clientEvents g @ [(ev, cid)]\<rparr>"

definition capability :: node where
  "capability = Node ''capability'' [(''ver'', ''1'')] (U8 [1, 5, 247, 9, 228, 250, 19])"

definition preacceptNode :: "string \<Rightarrow> string \<Rightarrow> string \<Rightarrow> node" where
  "preacceptNode mid jid cid =
     Node ''call'' [(''id'', mid), (''to'', jid), (''v'', ''3''), (''platform'', ''android'')]
       (Children
         [Node ''preaccept''
            [(''call-creator'', jid), (''call-id'', cid), (''v'', ''3''),
             (''platform'', ''android''), (''device_class'', ''2016'')]
            (Children
              [Node ''audio'' [(''enc'', ''opus''), (''rate'', ''16000''), (''ptime'', ''20'')] Absent,
               Node ''audio'' [(''enc'', ''opus''), (''rate'', ''8000''), (''ptime'', ''20'')] Absent,
               Node ''video'' [(''enc'', ''none'')] Absent,
               Node ''net'' [(''medium'', ''3'')] Absent,
               Node ''encopt'' [(''keygen'', ''2'')] Absent,
               capability])])"

definition sendPreaccept :: "env \<Rightarrow> string \<Rightarrow> string \<Rightarrow> gateway \<Rightarrow> gateway outcome" where
  "sendPreaccept B cid jid g =
     (if \<not> sock g then Raise (JsError ''WhatsApp socket not initialized'') g
      else (case newTag B g of (mid, g1) \<Rightarrow>
              bindO (sendNode B (preacceptNode mid jid cid) g1) (\<lambda>g2.
              Ok (emitClient ''call:preaccept-sent'' cid g2))))"

definition ringingNode :: "string \<Rightarrow> string \<Rightarrow> string \<Rightarrow> node" where
  "ringingNode mid jid cid =
     Node ''call'' [(''id'', mid), (''to'', jid)]
       (Children
         [Node ''ringing''
            [(''call-creator'', jid), (''call-id'', cid), (''v'', ''3''), (''platform'', ''android'')]
            Absent])"

definition sendRinging :: "env \<Rightarrow> string \<Rightarrow> string \<Rightarrow> gateway \<Rightarrow> gateway outcome" where
  "sendRinging B cid jid g =
     (if \<not> sock g then Ok g
      else (case newTag B g of (mid, g1) \<Rightarrow> sendNode B (ringingNode mid jid cid) g1))"

definition acceptNode :: "string \<Rightarrow> string \<Rightarrow> string \<Rightarrow> node" where
  "acceptNode mid njid cid =
     Node ''call'' [(''to'', njid), (''id'', mid)]
       (Children
         [Node ''accept'' [(''call-id'', cid), (''call-creator'', njid)]
            (Children
              [Node ''audio'' [(''enc'', ''opus''), (''rate'', ''16000'')] Absent,
               Node ''audio'' [(''enc'', ''opus''), (''rate'', ''8000'')] Absent,
               Node ''net'' [(''medium'', ''3'')] Absent,
               Node ''encopt'' [(''keygen'', ''2'')] Absent,
               capability])])"

definition readyNode :: "string \<Rightarrow> string \<Rightarrow> string \<Rightarrow> node" where
  "readyNode mid jid cid =
     Node ''call'' [(''id'', mid), (''to'', jid), (''v'', ''3''), (''platform'', ''android'')]
       (Children
         [Node ''ready''
            [(''call-creator'', jid), (''call-id'', cid), (''v'', ''3''),
             (''platform'', ''android''), (''device_class'', ''2016'')]
            Absent])"

definition sendReady :: "env \<Rightarrow> string \<Rightarrow> string \<Rightarrow> gateway \<Rightarrow> gateway outcome" where
  "sendReady B cid jid g =
     (if \<not> sock g then Ok g
      else catch (case newTag B g of (mid, g1) \<Rightarrow> sendNode B (readyNode mid jid cid) g1))"

text \<open>
  \<open>acceptCall\<close> of the client. The state object is read once at the start; the flag is
  set on it after PREACCEPT, the fixed wait, ACCEPT and READY, and only if it was found.
\<close>

definition markAccepted :: "string \<Rightarrow> call_state option \<Rightarrow> gateway \<Rightarrow> gateway" where
  "markAccepted cid state g =
     (case state of
        None \<Rightarrow> g
      | Some st \<Rightarrow> g\<lparr>callState := (callState g)(cid \<mapsto> st\<lparr>accepted := True\<rparr>)\<rparr>)"

definition acceptCall :: "env \<Rightarrow> string \<Rightarrow> string \<Rightarrow> string option \<Rightarrow> gateway \<Rightarrow> gateway outcome" where
  "acceptCall B cid jid creator g =
     (if \<not> sock g then Raise (JsError ''WhatsApp socket not initialized'') g
      else
        (let state = callState g cid
         in if (case state of None \<Rightarrow> False | Some st \<Rightarrow> accepted st) then Ok g
            else
              bindO (sendPreaccept B cid jid g) (\<lambda>g1.
              (case newTag B g1 of (mid, g2) \<Rightarrow>
                 bindO (sendNode B (acceptNode mid (jidNormalizedUser B jid) cid) g2) (\<lambda>g3.
                 bindO (sendReady B cid jid g3) (\<lambda>g4.
                 Ok (emitClient ''call:accepted'' cid (markAccepted cid state g4))))))))"

definition terminateNode :: "string \<Rightarrow> string \<Rightarrow> string \<Rightarrow> string \<Rightarrow> node" where
  "terminateNode mid jid cid reason =
     Node ''call'' [(''id'', mid), (''to'', jid), (''v'', ''3''), (''platform'', ''android'')]
       (Children
         [Node ''terminate'' [(''call-creator'', jid), (''call-id'', cid), (''reason'', reason)]
            Absent])"

definition terminateCall :: "env \<Rightarrow> string \<Rightarrow> string \<Rightarrow> string \<Rightarrow> gateway \<Rightarrow> gateway outcome" where
  "terminateCall B cid jid reason g =
     (if \<not> sock g then Ok g
      else (case newTag B g of (mid, g1) \<Rightarrow> sockSend B (terminateNode mid jid cid reason) g1))"

definition receiptNode :: "string \<Rightarrow> string \<Rightarrow> node" where
  "receiptNode jid stanzaId =
     Node ''receipt'' [(''to'', jid), (''id'', stanzaId), (''class'', ''call'')] Absent"

definition sendCallReceipt :: "env \<Rightarrow> string \<Rightarrow> string \<Rightarrow> gateway \<Rightarrow> gateway outcome" where
  "sendCallReceipt B jid cid g =
     (if sock g then
        catch (case (case decryptedOffers g cid of
                       None \<Rightarrow> None
                     | Some offerData \<Rightarrow> nonEmpty (u_stanzaId offerData)) of
                 Some stanzaId \<Rightarrow> sockSend B (receiptNode jid stanzaId) g
               | None \<Rightarrow> (case newTag B g of (mid, g1) \<Rightarrow> sockSend B (receiptNode jid mid) g1))
      else Ok g)"

text \<open>
  \<open>sock.rejectCall\<close> belongs to Baileys: it sends a \<open>call\<close> stanza with one \<open>reject\<close>
  child for the call id.
\<close>

definition rejectNode :: "env \<Rightarrow> string \<Rightarrow> string \<Rightarrow> node" where
  "rejectNode B jid cid =
     Node ''call'' [(''from'', meId B), (''to'', jid)]
       (Children
         [Node ''reject'' [(''call-id'', cid), (''call-creator'', jid), (''count'', ''0'')] Absent])"

definition rejectCall :: "env \<Rightarrow> string \<Rightarrow> string \<Rightarrow> gateway \<Rightarrow> gateway outcome" where
  "rejectCall B cid jid g =
     (if \<not> sock g then Raise (JsError ''WhatsApp socket not initialized'') g
      else bindO (sockSend B (rejectNode B jid cid) g) (\<lambda>g1.
           Ok (emitClient ''call:rejected'' cid g1)))"

definition setPublicInfo :: "string \<Rightarrow> nat \<Rightarrow> gateway \<Rightarrow> gateway" where
  "setPublicInfo a p g = g\<lparr>publicInfo := Some (a, p)\<rparr>"

text \<open>
  \<open>extractRteFromOffer\<close> tests \<open>r.ip\<close> itself, before joining: an array passes even
  when it is empty.
\<close>

definition extractRteFromOffer :: "offer \<Rightarrow> (string \<times> nat) option" where
  "extractRteFromOffer off =
     (case off of
        Proto ck (Some (r # rs)) nd \<Rightarrow>
          (if rprt r = 0 then None
           else (case rip r of
                   IpAbsent \<Rightarrow> None
                 | IpArr xs \<Rightarrow> Some (joinDot xs, rprt r)
                 | IpStr s \<Rightarrow> if s = [] then None else Some (s, rprt r)))
      | _ \<Rightarrow> None)"

subsection \<open>CallBridge\<close>

definition emitBridge :: "string \<Rightarrow> string \<Rightarrow> gateway \<Rightarrow> gateway" where
  "emitBridge ev cid g = g\<lparr>bridgeEvents := bridgeEvents g @ [(ev, cid)]\<rparr>"

definition endBridge :: "string \<Rightarrow> gateway \<Rightarrow> gateway" where
  "endBridge cid g =
     (case activeBridges g cid of
        None \<Rightarrow> g
      | Some b \<Rightarrow> emitBridge ''bridge:ended'' cid (g\<lparr>activeBridges := (activeBridges g)(cid := None)\<rparr>))"

subsection \<open>CallHandler\<close>

definition emitHandler :: "string \<Rightarrow> string \<Rightarrow> gateway \<Rightarrow> gateway" where
  "emitHandler ev cid g = g\<lparr>handlerEvents := handlerEvents g @ [(ev, cid)]\<rparr>"

text \<open>
  \<open>CallHandler.acceptCall\<close>: the \<open>catch\<close> logs and rethrows, so an exception of the client
  leaves the function.
\<close>

definition handler_acceptCall :: "env \<Rightarrow> string \<Rightarrow> string option \<Rightarrow> string option \<Rightarrow> gateway
    \<Rightarrow> gateway outcome" where
  "handler_acceptCall B cid jid creator g =
     (let call = activeCalls g cid
      in if call = None \<and> nonEmpty jid = None then Ok g
         else
           (let remoteJid = orElse jid (map_option callFrom call);
                creator' = orElse creator
                             (orElse (case call of None \<Rightarrow> None | Some c \<Rightarrow> evCallCreator c) remoteJid)
            in case nonEmpty remoteJid of
                 None \<Rightarrow> Raise (JsError ''Remote JID missing for acceptCall'') g
               | Some rj \<Rightarrow>
                   bindO (acceptCall B cid rj creator' g) (\<lambda>g1.
                   Ok (emitHandler ''call:accepted'' cid g1))))"

definition handler_rejectCall :: "env \<Rightarrow> string \<Rightarrow> string \<Rightarrow> gateway \<Rightarrow> gateway outcome" where
  "handler_rejectCall B cid jid g =
     bindO (rejectCall B cid jid g) (\<lambda>g1.
     Ok (emitHandler ''call:rejected'' cid (g1\<lparr>activeCalls := (activeCalls g1)(cid := None)\<rparr>)))"

text \<open>
  \<open>CallHandler.endCall\<close>. The bridge listens to the handler's \<open>call:ended\<close>, so the
  emission runs \<open>endBridge\<close>.
\<close>

definition endCall :: "env \<Rightarrow> string \<Rightarrow> string option \<Rightarrow> gateway \<Rightarrow> gateway outcome" where
  "endCall B cid jid g =
     (let call = activeCalls g cid;
          remoteJid = orElse jid (map_option callFrom call)
      in bindO (case nonEmpty remoteJid of
                  Some rj \<Rightarrow> catch (terminateCall B cid rj ''hangup'' g)
                | None \<Rightarrow> Ok g) (\<lambda>g1.
         Ok (endBridge cid (emitHandler ''call:ended'' cid
               (g1\<lparr>activeCalls := (activeCalls g1)(cid := None)\<rparr>)))))"

subsection \<open>CallBridge.bridgeCall\<close>

text \<open>
  \<open>bridgeCall\<close> runs synchronously up to \<open>await mediaBridge.start()\<close>: the bridge is
  registered. The rest, the body of its \<open>try\<close>, runs once the socket is bound.
\<close>

definition phoneNumber :: "string \<Rightarrow> string" where
  "phoneNumber jid = takeWhile (\<lambda>c. c \<noteq> CHR ''@'') jid"

definition mkSipSessionId :: "string \<Rightarrow> string" where
  "mkSipSessionId cid = ''wa-'' @ drop (length cid - 8) cid"

definition bridgeCall_begin :: "env \<Rightarrow> call_event \<Rightarrow> gateway \<Rightarrow> gateway" where
  "bridgeCall_begin B call g =
     (let mb = setStunClient
                 (newMediaBridge (rtpPortMin B + mathRandom B (entropy g) 1000) (cfgAsteriskHost B))
      in g\<lparr>entropy := entropy g + 1,
            activeBridges := (activeBridges g)(callId call \<mapsto>
              \<lparr>mediaBridge = mb, bridgeStun = \<lparr>socket = False\<rparr>,
               sipSessionId = mkSipSessionId (callId call), whatsappCall = call\<rparr>)\<rparr>)"

text \<open>The initial Binding Requests, one per relay; an exception of one ends the loop.\<close>

fun bindAll :: "env \<Rightarrow> stun_client \<Rightarrow> relay list \<Rightarrow> media_bridge \<times> nat
    \<Rightarrow> error + media_bridge \<times> nat" where
  "bindAll B st [] mn = Inr mn"
| "bindAll B st (r # rs) mn =
     (case sendBindingRequest (hmacSha1 B) st (randomBytes B (snd mn) 12)
             (randomBytes B (snd mn + 1) 8) r (username r) (token r) False of
        Inl e \<Rightarrow> Inl e
      | Inr None \<Rightarrow> bindAll B st rs (fst mn, snd mn + 2)
      | Inr (Some d) \<Rightarrow>
          (case udpSend (data d) (toPort d) (toHost d) (fst mn) of
             Raise e m \<Rightarrow> Inl e
           | Ok m \<Rightarrow> bindAll B st rs (m, snd mn + 2)))"

definition offerBody :: "call_event \<Rightarrow> offer" where
  "offerBody call = (case evOffer call of None \<Rightarrow> NoOffer | Some so \<Rightarrow> body so)"

text \<open>Media setup of the bridge: keys, relays with the call id as username, STUN, silence.\<close>

definition setupMedia :: "env \<Rightarrow> call_event \<Rightarrow> bridge \<Rightarrow> nat \<Rightarrow> error + bridge \<times> nat" where
  "setupMedia B call b n =
     (let mb1 = start (mediaBridge b);
          st = \<lparr>socket = True\<rparr>
      in case extractSrtpKeys (offerBody call) of
           None \<Rightarrow> Inr (b\<lparr>mediaBridge := mb1, bridgeStun := st\<rparr>, n)
         | Some keys \<Rightarrow>
             (let mb2 = initialize \<lparr>masterKey = masterKey keys, masterSalt = masterSalt keys\<rparr> mb1;
                  relaysWithAuth = map (\<lambda>r. r\<lparr>username := Some (callId call)\<rparr>) (exRelayEndpoints keys);
                  mb3 = updateRelays relaysWithAuth mb2
              in case bindAll B st relaysWithAuth (mb3, n) of
                   Inl e \<Rightarrow> Inl e
                 | Inr (mb4, n4) \<Rightarrow>
                     Inr (b\<lparr>mediaBridge := startSilence (mathRandom B n4 65535) mb4,
                             bridgeStun := st\<rparr>, n4 + 1)))"

definition bridgeCall_resume :: "env \<Rightarrow> call_event \<Rightarrow> gateway \<Rightarrow> gateway" where
  "bridgeCall_resume B call g =
     (case activeBridges g (callId call) of
        None \<Rightarrow> g
      | Some b \<Rightarrow>
          (case setupMedia B call b (entropy g) of
             Inl e \<Rightarrow> endBridge (callId call) g
           | Inr (b1, n1) \<Rightarrow>
               (let g1 = emitBridge ''bridge:created'' (callId call)
                           (g\<lparr>entropy := n1, activeBridges := (activeBridges g)(callId call \<mapsto> b1)\<rparr>);
                    g2 = state_of (handler_acceptCall B (callId call) (Some (callFrom call))
                                     (evCallCreator call) g1)
                in if makeCallFails B (sipSessionId b1) then endBridge (callId call) g2
                   else g2\<lparr>sipCalls := sipCalls g2 @
                          [(phoneNumber (callFrom call), sipSessionId b1,
                            localPort (mediaBridge b1))]\<rparr>)))"

definition bridgeCall :: "env \<Rightarrow> call_event \<Rightarrow> gateway \<Rightarrow> gateway" where
  "bridgeCall B call g = bridgeCall_resume B call (bridgeCall_begin B call g)"

subsection \<open>The offer, end to end\<close>

text \<open>
  The listener of the handler on \<open>call:offer\<close>, after it registered the call and emitted
  \<open>call:incoming\<close>: RINGING, receipt, and for a video call the reject.
\<close>

definition handler_offerTail :: "env \<Rightarrow> call_event \<Rightarrow> gateway \<Rightarrow> gateway outcome" where
  "handler_offerTail B call g =
     bindO (sendRinging B (callId call) (callFrom call) g) (\<lambda>g1.
     bindO (sendCallReceipt B (callFrom call) (callId call) g1) (\<lambda>g2.
     if isVideo call then handler_rejectCall B (callId call) (callFrom call) g2 else Ok g2))"

fun pollOffer :: "nat \<Rightarrow> gateway \<Rightarrow> string \<Rightarrow> stored_offer option" where
  "pollOffer 0 g cid = None"
| "pollOffer (Suc n) g cid =
     (case decryptedOffers g cid of Some d \<Rightarrow> Some d | None \<Rightarrow> pollOffer n g cid)"

definition mkCallEvent :: "env \<Rightarrow> wa_call \<Rightarrow> stored_offer option \<Rightarrow> call_event" where
  "mkCallEvent B w decryptedOffer =
     (let extractedCallCreator =
            (case decryptedOffer of
               None \<Rightarrow> None
             | Some d \<Rightarrow> orElse (u_callCreator d)
                           (case body d of Stanza n \<Rightarrow> attr (attrs n) ''call-creator'' | _ \<Rightarrow> None))
      in \<lparr>callId = wid w,
          callFrom = (case orElse (case decryptedOffer of None \<Rightarrow> None | Some d \<Rightarrow> u_from d)
                               (Some (wfrom w)) of
                        Some j \<Rightarrow> j | None \<Rightarrow> wfrom w),
          evTimestamp = dateNow B,
          isVideo = wisVideo w,
          isGroup = wisGroup w,
          evOffer = decryptedOffer,
          evCallCreator = orElse extractedCallCreator (Some (wfrom w))\<rparr>)"

text \<open>
  The \<open>call\<close> listener of the client on an offer. The continuation of \<open>bridgeCall\<close> waits
  for the socket of the media bridge while the listeners wait for the signalling socket,
  so their order is open: \<open>bridgeFirst\<close> picks one of the two extreme orders.
\<close>

definition onCallOffer :: "env \<Rightarrow> bool \<Rightarrow> wa_call \<Rightarrow> gateway \<Rightarrow> gateway outcome" where
  "onCallOffer B bridgeFirst w g =
     (let decryptedOffer = (case decryptedOffers g (wid w) of
                              Some d \<Rightarrow> Some d
                            | None \<Rightarrow> pollOffer 3 g (wid w));
          g1 = (case (case decryptedOffer of None \<Rightarrow> None | Some d \<Rightarrow> extractRteFromOffer (body d)) of
                  None \<Rightarrow> g
                | Some rte \<Rightarrow> setPublicInfo (fst rte) (snd rte) g);
          call = mkCallEvent B w decryptedOffer;
          g2 = emitClient ''call:offer'' (wid w)
                 (g1\<lparr>callState := (callState g1)(wid w \<mapsto>
                        \<lparr>gotTransport = False, gotRelay = False, accepted = False\<rparr>)\<rparr>);
          g3 = emitHandler ''call:incoming'' (wid w)
                 (g2\<lparr>activeCalls := (activeCalls g2)(callId call \<mapsto> call)\<rparr>);
          g4 = bridgeCall_begin B call g3;
          g5 = (if bridgeFirst then bridgeCall_resume B call g4 else g4)
      in bindO (handler_offerTail B call g5) (\<lambda>g6.
         bindO (sendRinging B (wid w) (callFrom call) g6) (\<lambda>g7.
         bindO (sendCallReceipt B (callFrom call) (wid w) g7) (\<lambda>g8.
         Ok (if bridgeFirst then g8 else bridgeCall_resume B call g8)))))"

text \<open>The other statuses of the \<open>call\<close> listener, with the handler's listeners on them.\<close>

definition onCallStatus :: "env \<Rightarrow> wa_call \<Rightarrow> gateway \<Rightarrow> gateway" where
  "onCallStatus B w g =
     (if wstatus w = ''ringing'' then emitClient ''call:ringing'' (wid w) g
      else if wstatus w = ''timeout'' \<or> wstatus w = ''reject'' \<or> wstatus w = ''accept'' then
        (let g1 = emitClient (''call:'' @ wstatus w) (wid w)
                    (g\<lparr>decryptedOffers := (decryptedOffers g)(wid w := None),
                       callState := (callState g)(wid w := None)\<rparr>)
         in if wstatus w = ''timeout'' then
              endBridge (wid w) (emitHandler ''call:ended'' (wid w)
                (g1\<lparr>activeCalls := (activeCalls g1)(wid w := None)\<rparr>))
            else if wstatus w = ''reject'' then
              emitHandler ''call:rejected'' (wid w)
                (g1\<lparr>activeCalls := (activeCalls g1)(wid w := None)\<rparr>)
            else g1)
      else g)"

text \<open>Stanzas of one kind for one call in a list of sent stanzas, and receipts to one JID.\<close>

definition isCallStanza :: "string \<Rightarrow> string \<Rightarrow> node \<Rightarrow> bool" where
  "isCallStanza kind cid nd =
     (tag nd = ''call'' \<and>
      (case content nd of
         Children cs \<Rightarrow> list_ex (\<lambda>c. tag c = kind \<and> map_of (attrs c) ''call-id'' = Some cid) cs
       | _ \<Rightarrow> False))"

definition isReceipt :: "string \<Rightarrow> node \<Rightarrow> bool" where
  "isReceipt jid nd =
     (tag nd = ''receipt'' \<and> map_of (attrs nd) ''to'' = Some jid \<and>
      map_of (attrs nd) ''class'' = Some ''call'')"

text \<open>The gateway after construction and connection, and a stand-in environment.\<close>

definition newGateway :: gateway where
  "newGateway =
     \<lparr>sock = True, decryptedOffers = Map.empty, callState = Map.empty, publicInfo = None,
      sent = [], attempts = 0, tags = 0, clientEvents = [],
      activeCalls = Map.empty, handlerEvents = [],
      activeBridges = Map.empty, bridgeEvents = [], sipCalls = [], entropy = 0\<rparr>"

definition stub_env :: env where
  "stub_env =
     \<lparr>generateMessageTag = (\<lambda>n. ''tag-'' @ showNat n),
      jidNormalizedUser = (\<lambda>j. takeWhile (\<lambda>c. c \<noteq> CHR '':'') j @ dropWhile (\<lambda>c. c \<noteq> CHR ''@'') j),
      sendFails = (\<lambda>n. False),
      meId = ''5511000000000@s.whatsapp.net'',
      hmacSha1 = stub_hmac,
      randomBytes = (\<lambda>n len. replicate len (of_nat n)),
      mathRandom = (\<lambda>n bound. 0),
      makeCallFails = (\<lambda>s. False),
      rtpPortMin = 10000,
      cfgAsteriskHost = ''10.0.0.5'',
      dateNow = 0\<rparr>"

definition video_offer :: wa_call where
  "video_offer = \<lparr>wid = ''CALL0001'', wfrom = ''5511999999999:7@s.whatsapp.net'',
                   wstatus = ''offer'', wisVideo = True, wisGroup = False\<rparr>"

definition audio_offer :: wa_call where
  "audio_offer = \<lparr>wid = ''CALL0002'', wfrom = ''5511999999999:7@s.whatsapp.net'',
                   wstatus = ''offer'', wisVideo = False, wisGroup = False\<rparr>"

definition failing_env :: env where
  "failing_env = stub_env\<lparr>sendFails := (\<lambda>n. True)\<rparr>"

definition ringingCount :: "string \<Rightarrow> gateway \<Rightarrow> nat" where
  "ringingCount cid g = length (filter (isCallStanza ''ringing'' cid) (sent g))"

definition receiptCount :: "string \<Rightarrow> gateway \<Rightarrow> nat" where
  "receiptCount jid g = length (filter (isReceipt jid) (sent g))"

text \<open>A gateway with one registered call whose accept flow has not run.\<close>

definition ringing_gateway :: gateway where
  "ringing_gateway =
     newGateway
       \<lparr>callState := [''CALL0002'' \<mapsto> \<lparr>gotTransport = False, gotRelay = False, accepted = False\<rparr>],
        activeCalls := [''CALL0002'' \<mapsto>
          \<lparr>callId = ''CALL0002'', callFrom = ''5511999999999:7@s.whatsapp.net'', evTimestamp = 0,
           isVideo = False, isGroup = False, evOffer = None,
           evCallCreator = Some ''5511999999999:7@s.whatsapp.net''\<rparr>]\<rparr>"

section \<open>Verified properties\<close>

subsection \<open>Media bridge\<close>

lemma catch_returns: "returns (catch x)"
  by (cases x) simp_all

lemma sendRtp_returns: "returns (sendRtp lib pl pt ts m b)"
  by (simp add: sendRtp_def catch_returns split: option.splits)

lemma forwardToWhatsApp_returns: "returns (forwardToWhatsApp lib msg b)"
  by (simp add: forwardToWhatsApp_def Let_def catch_returns)

text \<open>
  Media handling never throws: a failure of the parser, of an SRTP transform or of the
  socket inside \<open>handleMedia\<close> is swallowed by the \<open>try\<close> around it.
\<close>

lemma handleMedia_returns: "returns (handleMedia lib msg r b)"
  by (simp add: handleMedia_def forwardToWhatsApp_returns catch_returns split: option.splits)

text \<open>
  C5. The demultiplexer decides on the first byte alone, and the two ranges cover every
  byte: a datagram whose first byte is 0..3 goes to the STUN branch (which calls the STUN
  client's handler when a client is attached), and a datagram whose first byte is 4..255
  goes to media handling.
\<close>

theorem demux_first_byte:
  "(unat first \<le> 3 \<longrightarrow> demux lib (first # rest) r b = stunHandle (first # rest) r b) \<and>
   (4 \<le> unat first \<longrightarrow> demux lib (first # rest) r b = handleMedia lib (first # rest) r b) \<and>
   (unat first \<le> 3 \<or> (4 \<le> unat first \<and> unat first \<le> 255))"
proof -
  have "unat first < 256"
    using unsigned_less [of first, where ?'a = nat] by simp
  then show ?thesis
    by (auto simp: demux_def)
qed

theorem demux_first_byte_witness:
  "demux stub_werift [0x03, 0x00] stub_rinfo running_bridge
     = stunHandle [0x03, 0x00] stub_rinfo running_bridge \<and>
   demux stub_werift [0x04, 0x00] stub_rinfo running_bridge
     = handleMedia stub_werift [0x04, 0x00] stub_rinfo running_bridge \<and>
   demux stub_werift [0xFF, 0x00] stub_rinfo running_bridge
     = handleMedia stub_werift [0xFF, 0x00] stub_rinfo running_bridge"
  using demux_first_byte [of "0x03" stub_werift "[0x00]" stub_rinfo running_bridge]
        demux_first_byte [of "0x04" stub_werift "[0x00]" stub_rinfo running_bridge]
        demux_first_byte [of "0xFF" stub_werift "[0x00]" stub_rinfo running_bridge]
  by simp

text \<open>
  C4. Each packet that reaches the send path takes \<open>outSeq\<close> and leaves
  \<open>(outSeq + 1) mod 65535\<close> behind: the modulus is 65535, not 65536. After sequence
  number 65534 comes 0, the value 65535 is never used, and the numbers repeat after
  65535 packets.
\<close>

theorem sendRtp_outSeq:
  assumes "activeRelay b = Some t" and "srtpSession b = Some k" and "udpSocket b"
  shows "sequenceNumber (mkHeader b pt ts m) = outSeq b \<and>
         outSeq (state_of (sendRtp lib pl pt ts m b)) = (outSeq b + 1) mod 65535"
  using assms
  by (auto simp: mkHeader_def sendRtp_def sendRtp_body_def Let_def udpSend_def split: sum.splits)

theorem sendRtp_outSeq_witness:
  "outSeq (state_of (sendRtp stub_werift [0xF8, 0xFF, 0xFE] 111 0 True
     (running_bridge\<lparr>outSeq := 65534\<rparr>))) = 0"
  using sendRtp_outSeq [of "running_bridge\<lparr>outSeq := 65534\<rparr>" _ stub_keys
      111 0 True stub_werift "[0xF8, 0xFF, 0xFE]"]
  by (simp add: running_bridge_def initialize_def start_def setStunClient_def
      newMediaBridge_def)

lemma sendRtp_keeps:
  "activeRelay (state_of (sendRtp lib pl pt ts m b)) = activeRelay b \<and>
   srtpSession (state_of (sendRtp lib pl pt ts m b)) = srtpSession b \<and>
   udpSocket (state_of (sendRtp lib pl pt ts m b)) = udpSocket b"
  by (auto simp: sendRtp_def sendRtp_body_def Let_def udpSend_def split: option.splits sum.splits)

lemma silenceTick_step:
  assumes "activeRelay b = Some t" and "srtpSession b = Some k" and "udpSocket b"
  shows "activeRelay (state_of (silenceTick lib b)) = Some t \<and>
         srtpSession (state_of (silenceTick lib b)) = Some k \<and>
         udpSocket (state_of (silenceTick lib b)) \<and>
         outSeq (state_of (silenceTick lib b)) = (outSeq b + 1) mod 65535"
proof -
  obtain b1 where b1: "sendRtp lib [0xF8, 0xFF, 0xFE] 111 (silenceTs b) True b = Ok b1"
    using sendRtp_returns [of lib "[0xF8, 0xFF, 0xFE]" 111 "silenceTs b" True b]
    by (cases "sendRtp lib [0xF8, 0xFF, 0xFE] 111 (silenceTs b) True b") simp_all
  have "outSeq b1 = (outSeq b + 1) mod 65535"
    using assms b1
    by (auto simp: sendRtp_def sendRtp_body_def Let_def udpSend_def split: sum.splits if_splits)
  moreover have "activeRelay b1 = Some t" "srtpSession b1 = Some k" "udpSocket b1"
    using sendRtp_keeps [of lib "[0xF8, 0xFF, 0xFE]" 111 "silenceTs b" True b] b1 assms by simp_all
  ultimately show ?thesis
    using assms(2) b1 by (simp add: silenceTick_def)
qed

text \<open>
  After \<open>n\<close> packets the counter stands at \<open>(outSeq + n) mod 65535\<close>: it is back at its
  start after 65535 packets, one short of the 16-bit range.
\<close>

lemma silenceTicks_outSeq:
  assumes "activeRelay b = Some t" and "srtpSession b = Some k" and "udpSocket b"
    and "outSeq b < 65535"
  shows "outSeq (silenceTicks lib n b) = (outSeq b + n) mod 65535"
  using assms
proof (induction n arbitrary: b)
  case 0
  then show ?case by simp
next
  case (Suc n)
  let ?b1 = "state_of (silenceTick lib b)"
  from silenceTick_step [OF Suc.prems(1-3), of lib]
  have s: "activeRelay ?b1 = Some t" "srtpSession ?b1 = Some k" "udpSocket ?b1"
      "outSeq ?b1 = (outSeq b + 1) mod 65535" by simp_all
  have "outSeq ?b1 < 65535" unfolding s(4) by simp
  from Suc.IH [OF s(1-3) this]
  have "outSeq (silenceTicks lib n ?b1) = ((outSeq b + 1) mod 65535 + n) mod 65535"
    unfolding s(4) .
  also have "\<dots> = (outSeq b + Suc n) mod 65535"
    by (simp add: mod_add_left_eq)
  finally show ?case by simp
qed

lemma silenceTicks_period:
  assumes "activeRelay b = Some t" and "srtpSession b = Some k" and "udpSocket b"
    and "outSeq b < 65535"
  shows "outSeq (silenceTicks lib 65535 b) = outSeq b"
  using silenceTicks_outSeq [OF assms, of lib 65535] assms(4) by simp

text \<open>
  C8. A Binding Error response of 21 to 27 bytes passes the \<open>length > 20\<close> guard and
  then reads two bytes at offset 26, past its end: the range error leaves
  \<open>handleMessage\<close> and \<open>demux\<close>, which has no \<open>try\<close> on the STUN branch.
\<close>

theorem demux_binding_error_raises:
  assumes "stunClient b" and "18 < length rest" and "length rest < 26"
  shows "demux lib (0x01 # 0x11 # rest) r b = Raise RangeError b"
  using assms
  by (simp add: demux_def stunHandle_def handleMessage_def readUInt16BE_def)

theorem demux_binding_error_raises_witness:
  "demux stub_werift (0x01 # 0x11 # replicate 19 0) stub_rinfo running_bridge
     = Raise RangeError running_bridge"
  using demux_binding_error_raises [of running_bridge "replicate 19 0" stub_werift stub_rinfo]
  by (simp add: running_bridge_def initialize_def start_def setStunClient_def
      newMediaBridge_def)

text \<open>The same happens on an empty datagram and on a one-byte datagram on the STUN branch.\<close>

lemma demux_empty_raises: "demux lib [] r b = Raise TypeError b"
  by (simp add: demux_def)

lemma demux_one_byte_raises:
  "stunClient b \<Longrightarrow> unat first \<le> 3 \<Longrightarrow> demux lib [first] r b = Raise RangeError b"
  by (simp add: demux_def stunHandle_def handleMessage_def readUInt16BE_def)

subsection \<open>STUN Binding Request\<close>

lemma length_bufCopy: "off \<le> length tgt \<Longrightarrow> length (bufCopy src tgt off) = length tgt"
  by (auto simp: bufCopy_def)

lemma lenAttrs_concat: "lenAttrs ats = length (concat ats)"
proof -
  have "fold (\<lambda>b a. a + length b) ats n = n + length (concat ats)" for n
    by (induction ats arbitrary: n) auto
  then show ?thesis by (simp add: lenAttrs_def)
qed

lemma usernameAttr_ok:
  assumes "length u \<le> 65000"
  shows "\<exists>a. usernameAttr u = Inr a \<and> length a = 4 + length u + (4 - length u mod 4) mod 4"
  using assms
  by (simp add: usernameAttr_def Let_def utf8_def alloc_def writeUInt16BE_def length_bufCopy)

lemma iceControlledAttr_ok: "\<exists>a. iceControlledAttr rnd = Inr a \<and> length a = 12"
  by (simp add: iceControlledAttr_def alloc_def writeUInt16BE_def length_bufCopy)

lemma priorityAttr_ok: "\<exists>a. priorityAttr = Inr a \<and> length a = 8"
  by (simp add: priorityAttr_def alloc_def writeUInt16BE_def writeUInt32BE_def)

lemma useCandidateAttr_ok: "\<exists>a. useCandidateAttr = Inr a \<and> length a = 4"
  by (simp add: useCandidateAttr_def alloc_def writeUInt16BE_def)

lemma fingerprintAttr_ok: "fp < 4294967296 \<Longrightarrow> \<exists>a. fingerprintAttr fp = Inr a \<and> length a = 8"
  by (simp add: fingerprintAttr_def alloc_def writeUInt16BE_def writeUInt32BE_def)

lemma fingerprintStep_ok:
  assumes "length hdr = 20" and "length (concat ats) + 8 \<le> 65535"
  shows "\<exists>a. fingerprintStep (hdr, ats) =
           Inr (hdr[2 := of_nat ((length (concat ats) + 8) div 256),
                    3 := of_nat ((length (concat ats) + 8) mod 256)], ats @ [a]) \<and> length a = 8"
proof -
  let ?h1 = "hdr[2 := of_nat ((length (concat ats) + 8) div 256),
                    3 := of_nat ((length (concat ats) + 8) mod 256)]"
  have w: "writeUInt16BE (lenAttrs ats + 8) 2 hdr = Inr ?h1"
    using assms by (simp add: writeUInt16BE_def lenAttrs_concat)
  have "unat (crc32 (?h1 @ concat ats) XOR 0x5354554e) < 4294967296"
    using unsigned_less [of "crc32 (?h1 @ concat ats) XOR 0x5354554e", where ?'a = nat] by simp
  from fingerprintAttr_ok [OF this] obtain a where
    a: "fingerprintAttr (unat (crc32 (?h1 @ concat ats) XOR 0x5354554e)) = Inr a" "length a = 8"
    by blast
  show ?thesis
    by (simp add: fingerprintStep_def Let_def w a)
qed

lemma attrs1_ok:
  assumes "\<forall>u. uname = Some u \<longrightarrow> length u \<le> 65000"
  shows "\<exists>as. (case uname of None \<Rightarrow> Inr []
            | Some u \<Rightarrow> if u = [] then Inr []
                        else bindE (usernameAttr u) (\<lambda>a. Inr [a])) = Inr as
              \<and> length (concat as) \<le> 65007"
proof (cases uname)
  case None
  then show ?thesis by simp
next
  case (Some u)
  with assms have "length u \<le> 65000" by simp
  from usernameAttr_ok [OF this] obtain a where
    "usernameAttr u = Inr a" "length a = 4 + length u + (4 - length u mod 4) mod 4" by blast
  with Some \<open>length u \<le> 65000\<close> show ?thesis by auto
qed

lemma buildBindingRequest_without_token:
  assumes "\<forall>u. uname = Some u \<longrightarrow> length u \<le> 65000"
  shows "\<exists>pkt. buildBindingRequest hmac tid ice uname None uc = Inr pkt \<and>
           take 2 pkt = [0x00, 0x01] \<and> take 16 (drop 4 pkt) = replicate 16 0"
proof -
  from attrs1_ok [OF assms] obtain as where
    as: "(case uname of None \<Rightarrow> Inr []
            | Some u \<Rightarrow> if u = [] then Inr []
                        else bindE (usernameAttr u) (\<lambda>a. Inr [a])) = Inr as"
      "length (concat as) \<le> 65007" by blast
  obtain i where i: "iceControlledAttr ice = Inr i" "length i = 12"
    using iceControlledAttr_ok by blast
  obtain p where p: "priorityAttr = Inr p" "length p = 8"
    using priorityAttr_ok by blast
  obtain c where c: "useCandidateAttr = Inr c" "length c = 4"
    using useCandidateAttr_ok by blast
  have "\<exists>ucs. (if uc then bindE useCandidateAttr (\<lambda>a. Inr [a]) else Inr []) = Inr ucs \<and>
      length (concat ucs) \<le> 4"
    by (cases uc) (simp_all add: c)
  then obtain ucs where ucs: "(if uc then bindE useCandidateAttr (\<lambda>a. Inr [a]) else Inr []) = Inr ucs"
      "length (concat ucs) \<le> 4"
    by blast
  let ?hdr = "(alloc 20)[0 := 0, 1 := 1]"
  let ?ats = "as @ [i] @ [p] @ ucs"
  have h: "writeUInt16BE STUN_BINDING_REQUEST 0 (alloc 20) = Inr ?hdr"
    by (simp add: writeUInt16BE_def STUN_BINDING_REQUEST_def alloc_def)
  have len: "length (concat ?ats) + 8 \<le> 65535"
    using as(2) i(2) p(2) ucs(2) by simp
  have "length ?hdr = 20" by (simp add: alloc_def)
  from fingerprintStep_ok [OF this len] obtain a where
    a: "fingerprintStep (?hdr, ?ats) =
           Inr (?hdr[2 := of_nat ((length (concat ?ats) + 8) div 256),
                    3 := of_nat ((length (concat ?ats) + 8) mod 256)], ?ats @ [a])" by blast
  have b: "buildBindingRequest hmac tid ice uname None uc =
     Inr (?hdr[2 := of_nat ((length (concat ?ats) + 8) div 256),
               3 := of_nat ((length (concat ?ats) + 8) mod 256)] @ concat (?ats @ [a]))"
    unfolding buildBindingRequest_def
    by (simp only: h as(1) i(1) p(1) ucs(1) bindE.simps integrityStep_def option.case prod.case a fst_conv snd_conv)
  have "replicate 20 (0::byte) = 0 # 0 # 0 # 0 # replicate 16 0"
    by (simp add: numeral_eq_Suc)
  then show ?thesis
    unfolding b by (simp add: alloc_def)
qed

lemma alloc4: "alloc (4 + k) = 0 # 0 # 0 # 0 # replicate k 0"
  by (simp add: alloc_def numeral_eq_Suc)

lemma upd01: "(x0 # x1 # xs)[0 := a, 1 := b] = a # b # xs"
  by simp

lemma upd23: "(x0 # x1 # x2 # x3 # xs)[2 := a, 3 := b] = x0 # x1 # a # b # xs"
  by (simp add: numeral_eq_Suc)

lemma upd4567: "(x0 # x1 # x2 # x3 # x4 # x5 # x6 # x7 # xs)[4 := a, 5 := b, 6 := c, 7 := d]
    = x0 # x1 # x2 # x3 # a # b # c # d # xs"
  by (simp add: numeral_eq_Suc)

lemma bufCopy4:
  assumes "length v \<le> k"
  shows "bufCopy v (a # b # c # d # replicate k 0) 4 = [a, b, c, d] @ v @ replicate (k - length v) 0"
proof -
  have t: "take 4 (a # b # c # d # replicate k 0) = [a, b, c, d]"
    by (simp add: numeral_eq_Suc)
  have d: "drop (4 + length v) (a # b # c # d # replicate k 0) = replicate (k - length v) 0"
    by (simp add: numeral_eq_Suc)
  have l: "length (a # b # c # d # replicate k 0) - 4 = k"
    by simp
  show ?thesis
    unfolding bufCopy_def t d l using assms by simp
qed

lemma write16_at0:
  assumes "v \<le> 65535"
  shows "writeUInt16BE v 0 (x0 # x1 # xs) = Inr (of_nat (v div 256) # of_nat (v mod 256) # xs)"
  using assms by (simp add: writeUInt16BE_def)

lemma write16_at2:
  assumes "v \<le> 65535"
  shows "writeUInt16BE v 2 (x0 # x1 # x2 # x3 # xs)
           = Inr (x0 # x1 # of_nat (v div 256) # of_nat (v mod 256) # xs)"
proof -
  have "\<not> length (x0 # x1 # x2 # x3 # xs) < 2 + 2" by simp
  then show ?thesis
    using assms unfolding writeUInt16BE_def
    by (simp only: upd23 [symmetric] if_False)
       (simp add: writeUInt16BE_def)
qed


lemma write32_at4:
  assumes "v \<le> 4294967295"
  shows "writeUInt32BE v 4 (x0 # x1 # x2 # x3 # x4 # x5 # x6 # x7 # xs)
           = Inr ([x0, x1, x2, x3] @ u32be v @ xs)"
proof -
  have "\<not> length (x0 # x1 # x2 # x3 # x4 # x5 # x6 # x7 # xs) < 4 + 4" by simp
  then show ?thesis
    using assms unfolding writeUInt32BE_def
    by (simp add: upd4567 [simplified] u32be_def)
qed

lemma attr_build:
  assumes "ty \<le> 65535" and "length v \<le> 65535"
  shows "bindE (writeUInt16BE ty 0 (alloc (4 + (length v + pad)))) (\<lambda>a1.
         bindE (writeUInt16BE (length v) 2 a1) (\<lambda>a2.
         Inr (bufCopy v a2 4)))
           = Inr (u16be ty @ u16be (length v) @ v @ replicate pad 0)"
  unfolding alloc4
  by (simp only: write16_at0 [OF assms(1)] bindE.simps write16_at2 [OF assms(2)])
     (simp add: bufCopy4 u16be_def)

lemma usernameAttr_eq:
  assumes "length u \<le> 65535"
  shows "usernameAttr u = Inr (stunAttr 0x0006 (utf8 u))"
proof -
  have l: "length (utf8 u) = length u" by (simp add: utf8_def)
  have "usernameAttr u =
      bindE (writeUInt16BE 6 0 (alloc (4 + (length (utf8 u) + (4 - length (utf8 u) mod 4) mod 4)))) (\<lambda>a1.
         bindE (writeUInt16BE (length (utf8 u)) 2 a1) (\<lambda>a2.
         Inr (bufCopy (utf8 u) a2 4)))"
    by (simp add: usernameAttr_def Let_def add.assoc)
  also have "\<dots> = Inr (u16be 6 @ u16be (length (utf8 u)) @ utf8 u
      @ replicate ((4 - length (utf8 u) mod 4) mod 4) 0)"
    by (rule attr_build) (simp_all add: l assms)
  finally show ?thesis by (simp add: stunAttr_def)
qed

lemma iceControlledAttr_eq:
  assumes "length rnd = 8"
  shows "iceControlledAttr rnd = Inr (stunAttr 0x8029 rnd)"
proof -
  have "iceControlledAttr rnd =
      bindE (writeUInt16BE 0x8029 0 (alloc (4 + (length rnd + 0)))) (\<lambda>a1.
         bindE (writeUInt16BE (length rnd) 2 a1) (\<lambda>a2.
         Inr (bufCopy rnd a2 4)))"
    by (simp add: iceControlledAttr_def assms)
  also have "\<dots> = Inr (u16be 0x8029 @ u16be (length rnd) @ rnd @ replicate 0 0)"
    by (rule attr_build) (simp_all add: assms)
  finally show ?thesis by (simp add: stunAttr_def assms)
qed

lemma integrityAttr_eq:
  assumes "length sig = 20"
  shows "integrityAttr sig = Inr (stunAttr 0x0008 sig)"
proof -
  have "integrityAttr sig =
      bindE (writeUInt16BE 0x0008 0 (alloc (4 + (length sig + 0)))) (\<lambda>a1.
         bindE (writeUInt16BE (length sig) 2 a1) (\<lambda>a2.
         Inr (bufCopy sig a2 4)))"
    by (simp add: integrityAttr_def assms)
  also have "\<dots> = Inr (u16be 0x0008 @ u16be (length sig) @ sig @ replicate 0 0)"
    by (rule attr_build) (simp_all add: assms)
  finally show ?thesis by (simp add: stunAttr_def assms)
qed

lemma alloc8: "alloc 8 = [0, 0, 0, 0, 0, 0, 0, 0]"
  by (simp add: alloc_def numeral_eq_Suc)

lemma u32_attr_build:
  assumes "ty \<le> 65535" and "v \<le> 4294967295"
  shows "bindE (writeUInt16BE ty 0 (alloc 8)) (\<lambda>a1.
         bindE (writeUInt16BE 4 2 a1) (\<lambda>a2. writeUInt32BE v 4 a2))
           = Inr (stunAttr ty (u32be v))"
proof -
  have four: "(4::nat) \<le> 65535" by simp
  show ?thesis
    unfolding alloc8
    by (simp only: write16_at0 [OF assms(1)] bindE.simps write16_at2 [OF four]
        write32_at4 [OF assms(2)])
       (simp add: stunAttr_def u16be_def u32be_def)
qed

lemma priorityAttr_eq: "priorityAttr = Inr (stunAttr 0x0024 (u32be 1845494271))"
  unfolding priorityAttr_def by (rule u32_attr_build) simp_all

lemma fingerprintAttr_eq:
  assumes "fp \<le> 4294967295"
  shows "fingerprintAttr fp = Inr (stunAttr 0x8028 (u32be fp))"
  unfolding fingerprintAttr_def by (rule u32_attr_build) (simp_all add: assms)

lemma useCandidateAttr_eq: "useCandidateAttr = Inr (stunAttr 0x0025 [])"
proof -
  have z: "(0::nat) \<le> 65535" and t: "(0x25::nat) \<le> 65535" by simp_all
  have a: "alloc 4 = [0, 0, 0, 0]" by (simp add: alloc_def numeral_eq_Suc)
  show ?thesis
    unfolding useCandidateAttr_def a
    by (simp only: write16_at0 [OF t] bindE.simps write16_at2 [OF z])
       (simp add: stunAttr_def u16be_def)
qed


lemma alloc20: "alloc 20 = 0 # 0 # 0 # 0 # 0 # 0 # 0 # 0 # replicate 12 0"
  by (simp add: alloc_def numeral_eq_Suc)

lemma header_type: "writeUInt16BE STUN_BINDING_REQUEST 0 (alloc 20)
    = Inr (0 # 1 # 0 # 0 # 0 # 0 # 0 # 0 # replicate 12 0)"
  unfolding alloc20 by (simp add: writeUInt16BE_def STUN_BINDING_REQUEST_def)

lemma bufCopy8:
  assumes "length tid = 12"
  shows "bufCopy tid (x0 # x1 # x2 # x3 # x4 # x5 # x6 # x7 # replicate 12 0) 8
           = [x0, x1, x2, x3, x4, x5, x6, x7] @ tid"
proof -
  have t: "take 8 (x0 # x1 # x2 # x3 # x4 # x5 # x6 # x7 # replicate 12 0)
      = [x0, x1, x2, x3, x4, x5, x6, x7]"
    by (simp add: numeral_eq_Suc)
  have d: "drop (8 + length tid) (x0 # x1 # x2 # x3 # x4 # x5 # x6 # x7 # replicate 12 0) = []"
    using assms by simp
  have l: "length (x0 # x1 # x2 # x3 # x4 # x5 # x6 # x7 # replicate 12 0) - 8 = 12"
    by simp
  show ?thesis
    unfolding bufCopy_def t d l using assms by simp
qed

lemma magic: "u32be STUN_MAGIC_COOKIE = [0x21, 0x12, 0xA4, 0x42]"
  by (simp add: u32be_def STUN_MAGIC_COOKIE_def)

lemma stunHeader_cons:
  "stunHeader len tid = 0 # 1 # of_nat (len div 256) # of_nat (len mod 256)
      # 0x21 # 0x12 # 0xA4 # 0x42 # tid"
  by (simp add: stunHeader_def u16be_def u32be_def)

lemma integrityStep_eq:
  assumes "length tid = 12" and "length (concat ats) + 24 \<le> 65535"
    and "\<forall>k m. length (hmac k m) = 20"
  shows "integrityStep hmac tid (Some key) (0 # 1 # 0 # 0 # 0 # 0 # 0 # 0 # replicate 12 0, ats)
           = Inr (stunHeader (length (concat ats) + 24) tid,
                  ats @ [stunAttr 0x0008
                           (hmac key (stunHeader (length (concat ats) + 24) tid @ concat ats))])"
proof -
  let ?L = "length (concat ats) + 24"
  have m: "STUN_MAGIC_COOKIE \<le> 4294967295" by (simp add: STUN_MAGIC_COOKIE_def)
  have w1: "writeUInt16BE ?L 2 (0 # 1 # 0 # 0 # 0 # 0 # 0 # 0 # replicate 12 0)
      = Inr (0 # 1 # of_nat (?L div 256) # of_nat (?L mod 256) # 0 # 0 # 0 # 0 # replicate 12 0)"
    by (rule write16_at2 [OF assms(2)])
  have w2: "writeUInt32BE STUN_MAGIC_COOKIE 4
        (0 # 1 # of_nat (?L div 256) # of_nat (?L mod 256) # 0 # 0 # 0 # 0 # replicate 12 0)
      = Inr (0 # 1 # of_nat (?L div 256) # of_nat (?L mod 256) # 0x21 # 0x12 # 0xA4 # 0x42
             # replicate 12 0)"
    using write32_at4 [OF m, of 0 1 "of_nat (?L div 256)" "of_nat (?L mod 256)" 0 0 0 0
        "replicate 12 0"]
    by (simp add: magic)
  have c: "bufCopy tid (0 # 1 # of_nat (?L div 256) # of_nat (?L mod 256) # 0x21 # 0x12 # 0xA4 # 0x42
             # replicate 12 0) 8 = stunHeader ?L tid"
    using bufCopy8 [OF assms(1)] by (simp add: stunHeader_cons)
  have i: "integrityAttr (hmac key (stunHeader ?L tid @ concat ats))
      = Inr (stunAttr 0x0008 (hmac key (stunHeader ?L tid @ concat ats)))"
    by (rule integrityAttr_eq) (simp add: assms(3))
  show ?thesis
    unfolding integrityStep_def prod.case option.case lenAttrs_concat Let_def
    by (simp only: w1 w2 c i bindE.simps)
qed

lemma fingerprintStep_eq:
  assumes "length (concat ats) + 8 \<le> 65535"
  shows "fingerprintStep (stunHeader L tid, ats)
           = Inr (stunHeader (length (concat ats) + 8) tid,
                  ats @ [stunAttr 0x8028
                           (u32be (unat (crc32 (stunHeader (length (concat ats) + 8) tid @ concat ats)
                                    XOR 0x5354554e)))])"
proof -
  let ?F = "length (concat ats) + 8"
  have w1: "writeUInt16BE ?F 2 (stunHeader L tid) = Inr (stunHeader ?F tid)"
    unfolding stunHeader_cons by (rule write16_at2 [OF assms])
  have "unat (crc32 (stunHeader ?F tid @ concat ats) XOR 0x5354554e) < 4294967296"
    using unsigned_less [of "crc32 (stunHeader ?F tid @ concat ats) XOR 0x5354554e", where ?'a = nat]
    by simp
  then have b: "unat (crc32 (stunHeader ?F tid @ concat ats) XOR 0x5354554e) \<le> 4294967295"
    by simp
  show ?thesis
    unfolding fingerprintStep_def prod.case lenAttrs_concat Let_def
    by (simp only: w1 bindE.simps fingerprintAttr_eq [OF b])
qed


lemma length_stunAttr: "length (stunAttr ty v) = 4 + length v + (4 - length v mod 4) mod 4"
  by (simp add: stunAttr_def u16be_def)

text \<open>
  With a token, the builder produces exactly the layout of the specification: header,
  USERNAME when a username is supplied, ICE-CONTROLLED, PRIORITY, USE-CANDIDATE when
  nominating, MESSAGE-INTEGRITY, FINGERPRINT.
\<close>

lemma buildBindingRequest_layout:
  assumes "length tid = 12" and "length ice = 8" and "\<forall>k m. length (hmac k m) = 20"
    and "\<forall>u. uname = Some u \<longrightarrow> length u \<le> 65000"
  shows "buildBindingRequest hmac tid ice uname (Some key) uc
           = Inr (bindingRequestLayout hmac tid ice uname key uc)"
proof -
  let ?un = "case uname of None \<Rightarrow> [] | Some u \<Rightarrow> if u = [] then [] else [stunAttr 0x0006 (utf8 u)]"
  let ?ucs = "if uc then [stunAttr 0x0025 []] else []"
  let ?ats = "?un @ [stunAttr 0x8029 ice] @ [stunAttr 0x0024 (u32be 1845494271)] @ ?ucs"
  have a1: "(case uname of None \<Rightarrow> Inr []
            | Some u \<Rightarrow> if u = [] then Inr []
                        else bindE (usernameAttr u) (\<lambda>a. Inr [a])) = Inr ?un"
  proof (cases uname)
    case None
    then show ?thesis by simp
  next
    case (Some u)
    with assms(4) have "length u \<le> 65535" by simp
    then show ?thesis using Some by (simp add: usernameAttr_eq)
  qed
  have a4: "(if uc then bindE useCandidateAttr (\<lambda>a. Inr [a]) else Inr []) = Inr ?ucs"
    by (simp add: useCandidateAttr_eq)
  have lun: "length (concat ?un) \<le> 65007"
  proof (cases uname)
    case None
    then show ?thesis by simp
  next
    case (Some u)
    with assms(4) have "length u \<le> 65000" by simp
    moreover have "(4 - length u mod 4) mod 4 \<le> 3" by arith
    ultimately show ?thesis using Some by (simp add: length_stunAttr utf8_def)
  qed
  have lats: "length (concat ?ats) \<le> 65031"
    using lun by (simp add: length_stunAttr u32be_def assms(2))
  then have l24: "length (concat ?ats) + 24 \<le> 65535" by simp
  let ?mi = "stunAttr 0x0008 (hmac key (stunHeader (length (concat ?ats) + 24) tid @ concat ?ats))"
  have s5: "integrityStep hmac tid (Some key)
        (0 # 1 # 0 # 0 # 0 # 0 # 0 # 0 # replicate 12 0, ?ats)
      = Inr (stunHeader (length (concat ?ats) + 24) tid, ?ats @ [?mi])"
    by (rule integrityStep_eq [OF assms(1) l24 assms(3)])
  have lmi: "length ?mi = 24"
    by (simp add: length_stunAttr assms(3))
  have l8: "length (concat (?ats @ [?mi])) + 8 \<le> 65535"
    using lats lmi by simp
  note s6 = fingerprintStep_eq [OF l8, of "length (concat ?ats) + 24" tid]
  have b: "buildBindingRequest hmac tid ice uname (Some key) uc =
      Inr (stunHeader (length (concat (?ats @ [?mi])) + 8) tid @
           concat ((?ats @ [?mi]) @
             [stunAttr 0x8028 (u32be (unat (crc32
                (stunHeader (length (concat (?ats @ [?mi])) + 8) tid @ concat (?ats @ [?mi]))
                  XOR 0x5354554e)))]))"
    unfolding buildBindingRequest_def
    by (simp only: header_type a1 iceControlledAttr_eq [OF assms(2)] priorityAttr_eq a4
        bindE.simps s5 s6 fst_conv snd_conv)
  have un: "concat ?un = (case uname of None \<Rightarrow> []
                   | Some u \<Rightarrow> if u = [] then [] else stunAttr 0x0006 (utf8 u))"
    by (simp split: option.splits)
  have ucs: "concat ?ucs = (if uc then stunAttr 0x0025 [] else [])"
    by simp
  show ?thesis
    unfolding b bindingRequestLayout_def Let_def
    by (simp add: un ucs del: concat.simps(2)) (simp split: option.splits)
qed

text \<open>
  C2. Without a token the Binding Request still goes out, but its header carries neither
  the magic cookie nor the transaction id: bytes 4..19 are the zeros of \<open>Buffer.alloc\<close>,
  since both are written only in the MESSAGE-INTEGRITY step.
\<close>

theorem sendBindingRequest_without_token:
  assumes "socket c" and "0 < port rl" and "port rl < 65536"
    and "\<forall>u. uname = Some u \<longrightarrow> length u \<le> 65000"
  shows "\<exists>pkt. sendBindingRequest hmac c tid ice rl uname None uc
             = Inr (Some \<lparr>data = pkt, toPort = port rl, toHost = ip rl\<rparr>) \<and>
           take 2 pkt = [0x00, 0x01] \<and> take 16 (drop 4 pkt) = replicate 16 0"
proof -
  from buildBindingRequest_without_token [OF assms(4)] obtain pkt where
    "buildBindingRequest hmac tid ice uname None uc = Inr pkt"
    "take 2 pkt = [0x00, 0x01]" "take 16 (drop 4 pkt) = replicate 16 0"
    by blast
  with assms(1-3) show ?thesis
    by (simp add: sendBindingRequest_def)
qed

theorem sendBindingRequest_without_token_witness:
  "\<exists>pkt. sendBindingRequest stub_hmac \<lparr>socket = True\<rparr> [1, 2, 3, 4, 5, 6, 7, 8, 9, 10, 11, 12]
            [0, 0, 0, 0, 0, 0, 0, 1] stub_relay (Some ''call-1'') None False
             = Inr (Some \<lparr>data = pkt, toPort = 3478, toHost = ''157.240.0.1''\<rparr>) \<and>
         take 2 pkt = [0x00, 0x01] \<and> take 16 (drop 4 pkt) = replicate 16 0"
  using sendBindingRequest_without_token [of "\<lparr>socket = True\<rparr>" stub_relay "Some ''call-1''"
      stub_hmac "[1, 2, 3, 4, 5, 6, 7, 8, 9, 10, 11, 12]" "[0, 0, 0, 0, 0, 0, 0, 1]" False]
  by (simp add: stub_relay_def)

subsection \<open>Key extractor\<close>

lemma keyStep_cases:
  assumes "keyStep (Node tg as c) ak = Inr ak'"
  shows "ak' = ak \<or> (\<exists>b \<in> keyBlobs (Node tg as c). 30 \<le> length b \<and> ak' = Some b)"
  using assms
  by (cases "toBuffer c") (auto simp: keyStep_def split: if_splits)

lemma traverse_key_origin:
  "traverse tokens n st = Inr st' \<Longrightarrow>
     snd st' = snd st \<or> (\<exists>b \<in> keyBlobs n. 30 \<le> length b \<and> snd st' = Some b)"
  "traverse_content tokens c st = Inr st' \<Longrightarrow>
     snd st' = snd st \<or> (\<exists>b \<in> keyBlobs_content c. 30 \<le> length b \<and> snd st' = Some b)"
  "traverse_each tokens ns st = Inr st' \<Longrightarrow>
     snd st' = snd st \<or> (\<exists>b \<in> keyBlobs_each ns. 30 \<le> length b \<and> snd st' = Some b)"
proof (induction tokens n st and tokens c st and tokens ns st
    arbitrary: st' and st' and st' rule: traverse_traverse_content_traverse_each.induct)
  case (1 tokens tg as c st)
  from "1.prems" obtain ak where ak: "keyStep (Node tg as c) (snd st) = Inr ak"
      "traverse_content tokens c (relayStep tokens (Node tg as c) (fst st), ak) = Inr st'"
    by (cases "keyStep (Node tg as c) (snd st)") (auto simp: Let_def)
  from "1.IH" [OF refl ak(2)]
  have "snd st' = ak \<or> (\<exists>b \<in> keyBlobs_content c. 30 \<le> length b \<and> snd st' = Some b)"
    by simp
  moreover from keyStep_cases [OF ak(1)]
  have "ak = snd st \<or> (\<exists>b \<in> keyBlobs (Node tg as c). 30 \<le> length b \<and> ak = Some b)" .
  ultimately show ?case by auto
next
  case (10 tokens n ns st)
  from "10.prems" obtain s1 where s1: "traverse tokens n st = Inr s1"
      "traverse_each tokens ns s1 = Inr st'"
    by (cases "traverse tokens n st") auto
  from "10.IH"(1) [OF s1(1)] "10.IH"(2) [OF s1(2)] show ?case by auto
qed (auto split: if_splits)

text \<open>
  Where the keys of a scan come from: the payload of a key-bearing element of the tree,
  at least 30 bytes long, or else the decoded call object.
\<close>

lemma scanOffer_key_origin:
  assumes "scanOffer off = Inr (rs, Some k)" and "rootNode off = Some n"
  shows "(\<exists>b \<in> keyBlobs n. 30 \<le> length b \<and> finalizeKeys (Some b) = Some k) \<or>
         extractKeysFromDecryptedProto off = Some k"
proof -
  from assms obtain tokens st where st: "traverse tokens n (protoRelays off, None) = Inr st"
      and k: "fallbackKeys off (finalizeKeys (snd st)) = Some k"
    by (cases "collectTokens n []";
        cases "traverse (projr (collectTokens n [])) n (protoRelays off, None)")
       (auto simp: scanOffer_def)
  show ?thesis
  proof (cases "finalizeKeys (snd st)")
    case None
    with k have "extractKeysFromDecryptedProto off = Some k"
      by (cases off) (simp_all add: fallbackKeys_def extractKeysFromDecryptedProto_def)
    then show ?thesis by simp
  next
    case (Some k')
    with k have kk: "k' = k" by (simp add: fallbackKeys_def)
    from Some obtain blob where b: "snd st = Some blob"
      by (cases "snd st") (auto simp: finalizeKeys_def)
    with traverse_key_origin(1) [OF st] have "blob \<in> keyBlobs n" "30 \<le> length blob"
      by auto
    with Some b kk show ?thesis by auto
  qed
qed

text \<open>
  C3 (as the code has it). \<open>extractSrtpKeys\<close> returns either \<open>null\<close> or keys together
  with the relay list; there is no result that carries relays without keys. When no
  key-bearing element of the tree has a payload of 30 bytes and the decoded call object
  gives no key either, the result is \<open>null\<close>, whatever relay candidates were collected:
  the list is discarded.
\<close>

theorem extractSrtpKeys_null_without_valid_key:
  assumes "\<forall>n. rootNode off = Some n \<longrightarrow> (\<forall>b \<in> keyBlobs n. length b < 30)"
    and "extractKeysFromDecryptedProto off = None"
  shows "extractSrtpKeys off = None"
proof (cases "scanOffer off")
  case (Inl e)
  then show ?thesis by (simp add: extractSrtpKeys_def)
next
  case (Inr res)
  obtain rs keys where res: "res = (rs, keys)" by (cases res)
  show ?thesis
  proof (cases keys)
    case None
    with Inr res show ?thesis by (simp add: extractSrtpKeys_def)
  next
    case (Some k)
    with Inr res have sc: "scanOffer off = Inr (rs, Some k)" by simp
    then obtain n where n: "rootNode off = Some n"
      by (cases "rootNode off") (auto simp: scanOffer_def)
    from scanOffer_key_origin [OF sc n] assms n show ?thesis
      by (auto simp: not_le [symmetric])
  qed
qed

theorem extractSrtpKeys_null_without_valid_key_witness:
  "extractSrtpKeys (Stanza (Node ''offer'' [(''call-id'', ''c1'')]
     (Children [Node ''te'' [] (Buf [1, 2, 3, 4, 0x0D, 0x96]),
                Node ''call-key'' [] (Buf [1, 2, 3, 4, 5, 6, 7, 8, 9, 10])]))) = None \<and>
   extractSrtpKeys (Proto None
     (Some [\<lparr>rip = IpArr [1, 2, 3, 4], rprt = 3478, rtoken = TokAbsent\<rparr>])
     (Node [] [] Absent)) = None"
  using extractSrtpKeys_null_without_valid_key [of "Stanza (Node ''offer'' [(''call-id'', ''c1'')]
     (Children [Node ''te'' [] (Buf [1, 2, 3, 4, 0x0D, 0x96]),
                Node ''call-key'' [] (Buf [1, 2, 3, 4, 5, 6, 7, 8, 9, 10])]))"]
    extractSrtpKeys_null_without_valid_key [of "Proto None
     (Some [\<lparr>rip = IpArr [1, 2, 3, 4], rprt = 3478, rtoken = TokAbsent\<rparr>])
     (Node [] [] Absent)"]
  by (simp add: rootNode_def extractKeysFromDecryptedProto_def)

text \<open>
  A single \<open>te\<close> element with a six-byte payload: one relay candidate is collected, no
  key is found, and the result is \<open>null\<close> with nothing of the relay in it.
\<close>

theorem extractSrtpKeys_drops_relays_counterexample:
  "scanOffer (Stanza (Node ''te'' [] (Buf [1, 2, 3, 4, 0x0D, 0x96])))
     = Inr ([\<lparr>ip = ''1.2.3.4'', port = 3478, token = None, username = None,
               callCreator = None\<rparr>], None) \<and>
   extractSrtpKeys (Stanza (Node ''te'' [] (Buf [1, 2, 3, 4, 0x0D, 0x96]))) = None"
  by code_simp

text \<open>
  A \<open>call-key\<close> element of forty bytes \<open>0x41\<close> (the text \<open>AAAA...\<close>): the keys are
  not the first thirty bytes of the blob but thirty zero bytes, its base64 decoding.
\<close>

theorem extractSrtpKeys_40_byte_blob_counterexample:
  "extractSrtpKeys (Stanza (Node ''call-key'' [] (Buf (replicate 40 0x41))))
     = Some \<lparr>masterKey = replicate 16 0, masterSalt = replicate 14 0, exRelayEndpoints = []\<rparr> \<and>
   extractSrtpKeys (Stanza (Node ''call-key'' [] (Buf (replicate 40 0x41))))
     \<noteq> Some \<lparr>masterKey = take 16 (replicate 40 0x41),
               masterSalt = take 14 (drop 16 (replicate 40 0x41)), exRelayEndpoints = []\<rparr>"
  by code_simp

lemma keyTag_simps:
  assumes "tg = ''hbh_key'' \<or> tg = ''enc'' \<or> tg = ''call-key''"
  shows "tg \<noteq> ''token''" "tg \<noteq> ''te''" "tg \<noteq> ''relay''"
  using assms by auto

lemma leaf_simps:
  assumes "c = Buf blob \<or> c = U8 blob \<or> c = Tagged blob"
  shows "toBuffer c = Inr blob" "truthy c" "collectTokens_content c t = Inr t"
    "traverse_content tokens c st = Inr st"
  using assms by auto

lemma scanOffer_single_key_node:
  assumes "tg = ''hbh_key'' \<or> tg = ''enc'' \<or> tg = ''call-key''"
    and "c = Buf blob \<or> c = U8 blob \<or> c = Tagged blob"
  shows "scanOffer (Stanza (Node tg as c)) =
           Inr ([], finalizeKeys (if 30 \<le> length blob then Some blob else None))"
proof -
  have t: "collectTokens (Node tg as c) [] = Inr []"
    by (simp add: tokenStep_def keyTag_simps [OF assms(1)] leaf_simps [OF assms(2)])
  have k: "keyStep (Node tg as c) None = Inr (if 30 \<le> length blob then Some blob else None)"
    using assms(1) by (simp add: keyStep_def leaf_simps [OF assms(2)])
  have r: "relayStep [] (Node tg as c) [] = []"
    by (simp add: relayStep_def keyTag_simps [OF assms(1)])
  have tr: "traverse [] (Node tg as c) ([], None) = Inr ([], if 30 \<le> length blob then Some blob else None)"
    by (simp add: k r leaf_simps [OF assms(2)] Let_def)
  show ?thesis
    by (simp add: scanOffer_def rootNode_def protoRelays_def t tr fallbackToken_def fallbackKeys_def
        del: collectTokens.simps traverse.simps split: option.splits)
qed


text \<open>
  Both passes in terms of the nodes visited: a pass throws exactly when it reads an
  unreadable payload, and otherwise \<open>audioKeys\<close> ends as the blob adopted.
\<close>

lemma keyStep_keep:
  "keyStep nd ak = (if readsKey nd \<and> unreadable nd then Inl TypeError else Inr (keep ak nd))"
  by (cases nd; cases "content nd")
     (auto simp: keyStep_def keep_def readsKey_def unreadable_def payload_def)

lemma tokenStep_reads:
  "(\<exists>e. tokenStep tg as c t = Inl e) = (readsToken (Node tg as c) \<and> unreadable (Node tg as c))"
  by (cases c) (auto simp: tokenStep_def readsToken_def unreadable_def split: option.splits)

lemma collectTokens_raises:
  "(\<exists>e. collectTokens n t = Inl e) = list_ex (\<lambda>nd. readsToken nd \<and> unreadable nd) (visited n)"
  "(\<exists>e. collectTokens_content c t = Inl e) = list_ex (\<lambda>nd. readsToken nd \<and> unreadable nd) (visited_content c)"
  "(\<exists>e. collectTokens_each ns t = Inl e) = list_ex (\<lambda>nd. readsToken nd \<and> unreadable nd) (visited_each ns)"
proof (induction n t and c t and ns t rule: collectTokens_collectTokens_content_collectTokens_each.induct)
  case (1 tg as c tokens)
  show ?case
  proof (cases "tokenStep tg as c tokens")
    case (Inl e)
    with tokenStep_reads [of tg as c tokens] show ?thesis by auto
  next
    case (Inr t1)
    with tokenStep_reads [of tg as c tokens]
    have "\<not> (readsToken (Node tg as c) \<and> unreadable (Node tg as c))" by auto
    with Inr "1.IH" show ?thesis by auto
  qed
next
  case (10 n ns tokens)
  show ?case
  proof (cases "collectTokens n tokens")
    case (Inl e)
    with "10.IH"(1) show ?thesis by auto
  next
    case (Inr t1)
    with "10.IH"(1) have "\<not> list_ex (\<lambda>nd. readsToken nd \<and> unreadable nd) (visited n)" by auto
    with Inr "10.IH"(2) show ?thesis by simp
  qed
qed simp_all

lemma traverse_raises:
  "(\<exists>e. traverse tokens n st = Inl e) = list_ex (\<lambda>nd. readsKey nd \<and> unreadable nd) (visited n)"
  "(\<exists>e. traverse_content tokens c st = Inl e) = list_ex (\<lambda>nd. readsKey nd \<and> unreadable nd) (visited_content c)"
  "(\<exists>e. traverse_each tokens ns st = Inl e) = list_ex (\<lambda>nd. readsKey nd \<and> unreadable nd) (visited_each ns)"
proof (induction tokens n st and tokens c st and tokens ns st
    rule: traverse_traverse_content_traverse_each.induct)
  case (1 tokens tg as c st)
  show ?case
    using "1.IH" [OF refl] by (auto simp: keyStep_keep Let_def)
next
  case (10 tokens n ns st)
  show ?case
  proof (cases "traverse tokens n st")
    case (Inl e)
    with "10.IH"(1) show ?thesis by auto
  next
    case (Inr s1)
    with "10.IH"(1) have "\<not> list_ex (\<lambda>nd. readsKey nd \<and> unreadable nd) (visited n)" by auto
    with Inr "10.IH"(2) show ?thesis by simp
  qed
qed simp_all

lemma traverse_keeps:
  "traverse tokens n st = Inr st' \<Longrightarrow> snd st' = foldl keep (snd st) (visited n)"
  "traverse_content tokens c st = Inr st' \<Longrightarrow> snd st' = foldl keep (snd st) (visited_content c)"
  "traverse_each tokens ns st = Inr st' \<Longrightarrow> snd st' = foldl keep (snd st) (visited_each ns)"
proof (induction tokens n st and tokens c st and tokens ns st
    arbitrary: st' and st' and st' rule: traverse_traverse_content_traverse_each.induct)
  case (1 tokens tg as c st)
  from "1.prems" "1.IH" [OF refl, of "keep (snd st) (Node tg as c)" st'] show ?case
    by (simp add: keyStep_keep Let_def split: if_splits)
next
  case (10 tokens n ns st)
  from "10.prems" obtain s1 where s1: "traverse tokens n st = Inr s1"
      "traverse_each tokens ns s1 = Inr st'"
    by (cases "traverse tokens n st") auto
  from "10.IH"(1) [OF s1(1)] "10.IH"(2) [OF s1(2)] show ?case by simp
qed (auto split: if_splits)

lemma foldl_keep:
  "foldl keep ak nds =
     (case filter (\<lambda>b. 30 \<le> length b) (map payload (filter readsKey nds)) of
        [] \<Rightarrow> ak
      | b # bs \<Rightarrow> Some (last (b # bs)))"
proof (induction nds rule: rev_induct)
  case Nil
  show ?case by simp
next
  case (snoc nd nds)
  then show ?case by (simp add: keep_def split: list.splits)
qed


lemma rejected_iff:
  "rejected n = (list_ex (\<lambda>nd. readsToken nd \<and> unreadable nd) (visited n) \<or>
                 list_ex (\<lambda>nd. readsKey nd \<and> unreadable nd) (visited n))"
  by (auto simp: rejected_def list_ex_iff)

lemma adopted_foldl: "foldl keep None (visited n) = adopted n"
  by (simp add: foldl_keep adopted_def)

lemma extractSrtpKeys_keys:
  assumes "rootNode off = Some n"
  shows "map_option (\<lambda>r. \<lparr>masterKey = masterKey r, masterSalt = masterSalt r\<rparr>) (extractSrtpKeys off) =
           (if rejected n then None else fallbackKeys off (finalizeKeys (adopted n)))"
proof (cases "collectTokens n []")
  case (Inl e)
  with collectTokens_raises(1) [of n "[]"] have "rejected n" by (auto simp: rejected_iff)
  moreover from Inl assms have "extractSrtpKeys off = None"
    by (simp add: extractSrtpKeys_def scanOffer_def)
  ultimately show ?thesis by simp
next
  case (Inr tokens)
  with collectTokens_raises(1) [of n "[]"]
  have nt: "\<not> list_ex (\<lambda>nd. readsToken nd \<and> unreadable nd) (visited n)" by auto
  show ?thesis
  proof (cases "traverse tokens n (protoRelays off, None)")
    case (Inl e)
    with traverse_raises(1) [of tokens n "(protoRelays off, None)"] have "rejected n"
      by (auto simp: rejected_iff)
    moreover from Inl Inr assms have "extractSrtpKeys off = None"
      by (simp add: extractSrtpKeys_def scanOffer_def)
    ultimately show ?thesis by simp
  next
    case st: (Inr st)
    with traverse_raises(1) [of tokens n "(protoRelays off, None)"] nt have nr: "\<not> rejected n"
      by (auto simp: rejected_iff)
    from traverse_keeps(1) [OF st] have k: "snd st = adopted n"
      by (simp add: adopted_foldl)
    from Inr st assms k have
      "scanOffer off = Inr (fallbackToken tokens (fst st), fallbackKeys off (finalizeKeys (adopted n)))"
      by (simp add: scanOffer_def)
    then have "map_option (\<lambda>r. \<lparr>masterKey = masterKey r, masterSalt = masterSalt r\<rparr>) (extractSrtpKeys off)
        = fallbackKeys off (finalizeKeys (adopted n))"
      by (cases "fallbackKeys off (finalizeKeys (adopted n))") (simp_all add: extractSrtpKeys_def)
    with nr show ?thesis by simp
  qed
qed

text \<open>
  C1 (as the code has it). On the decoded call object, a key blob of at least 30 bytes
  gives \<open>masterKey\<close> = bytes 0..15 and \<open>masterSalt\<close> = bytes 16..29, and a shorter one
  gives \<open>null\<close>; the blob is the buffer itself or the base64 decoding of a string. On
  the traversal path, for every stanza tree, the blob is the payload of the last
  key-bearing element visited that has 30 bytes or more: when its length is not 40 the
  keys are its bytes 0..15 and 16..29; a 40-byte payload is base64-decoded first and the
  split applies to the decoded bytes, when there are 30 of them. Without such a blob,
  or with fewer than 30 decoded bytes, a stanza gives \<open>null\<close> and a decoded call object
  gives the keys of its \<open>callKey\<close>. A tree with an unreadable payload gives \<open>null\<close>.
\<close>

theorem extractKeys_by_path:
  "((ck = CKBytes blob \<or> ck = CKTagged blob \<or> (ck = CKStr s \<and> s \<noteq> [] \<and> blob = base64 s)) \<longrightarrow>
      extractKeysFromDecryptedProto (Proto (Some ck) rls nd) =
        (if 30 \<le> length blob
         then Some \<lparr>masterKey = take 16 blob, masterSalt = take 14 (drop 16 blob)\<rparr>
         else None)) \<and>
   ((tg = ''hbh_key'' \<or> tg = ''enc'' \<or> tg = ''call-key'') \<and>
    (c = Buf blob \<or> c = U8 blob \<or> c = Tagged blob) \<longrightarrow>
      extractSrtpKeys (Stanza (Node tg as c)) =
        (let kb = (if length blob = 40 then base64 (lowBytes (toString blob)) else blob)
         in if 30 \<le> length kb
            then Some \<lparr>masterKey = take 16 kb, masterSalt = take 14 (drop 16 kb),
                        exRelayEndpoints = []\<rparr>
            else None)) \<and>
   map_option (\<lambda>r. \<lparr>masterKey = masterKey r, masterSalt = masterSalt r\<rparr>)
       (extractSrtpKeys (Stanza n)) =
     (if rejected n then None
      else case adopted n of
             None \<Rightarrow> None
           | Some b \<Rightarrow>
               (let kb = (if length b = 40 then base64 (lowBytes (toString b)) else b)
                in if 30 \<le> length kb
                   then Some \<lparr>masterKey = take 16 kb, masterSalt = take 14 (drop 16 kb)\<rparr>
                   else None)) \<and>
   map_option (\<lambda>r. \<lparr>masterKey = masterKey r, masterSalt = masterSalt r\<rparr>)
       (extractSrtpKeys (Proto pk prs root)) =
     (if rejected root then None
      else case adopted root of
             None \<Rightarrow> extractKeysFromDecryptedProto (Proto pk prs root)
           | Some b \<Rightarrow>
               (let kb = (if length b = 40 then base64 (lowBytes (toString b)) else b)
                in if 30 \<le> length kb
                   then Some \<lparr>masterKey = take 16 kb, masterSalt = take 14 (drop 16 kb)\<rparr>
                   else extractKeysFromDecryptedProto (Proto pk prs root)))"
proof (intro conjI impI)
  assume "ck = CKBytes blob \<or> ck = CKTagged blob \<or> (ck = CKStr s \<and> s \<noteq> [] \<and> blob = base64 s)"
  then show "extractKeysFromDecryptedProto (Proto (Some ck) rls nd) =
        (if 30 \<le> length blob
         then Some \<lparr>masterKey = take 16 blob, masterSalt = take 14 (drop 16 blob)\<rparr>
         else None)"
    by (auto simp: extractKeysFromDecryptedProto_def callKeyBuffer_def slice_def)
next
  assume a: "(tg = ''hbh_key'' \<or> tg = ''enc'' \<or> tg = ''call-key'') \<and>
    (c = Buf blob \<or> c = U8 blob \<or> c = Tagged blob)"
  have sc: "scanOffer (Stanza (Node tg as c)) =
           Inr ([], finalizeKeys (if 30 \<le> length blob then Some blob else None))"
    using a scanOffer_single_key_node by blast
  show "extractSrtpKeys (Stanza (Node tg as c)) =
        (let kb = (if length blob = 40 then base64 (lowBytes (toString blob)) else blob)
         in if 30 \<le> length kb
            then Some \<lparr>masterKey = take 16 kb, masterSalt = take 14 (drop 16 kb),
                        exRelayEndpoints = []\<rparr>
            else None)"
    unfolding extractSrtpKeys_def sc
    by (simp add: finalizeKeys_def slice_def Let_def)
next
  show "map_option (\<lambda>r. \<lparr>masterKey = masterKey r, masterSalt = masterSalt r\<rparr>)
       (extractSrtpKeys (Stanza n)) =
     (if rejected n then None
      else case adopted n of
             None \<Rightarrow> None
           | Some b \<Rightarrow>
               (let kb = (if length b = 40 then base64 (lowBytes (toString b)) else b)
                in if 30 \<le> length kb
                   then Some \<lparr>masterKey = take 16 kb, masterSalt = take 14 (drop 16 kb)\<rparr>
                   else None))"
    by (simp add: extractSrtpKeys_keys [of "Stanza n" n, unfolded rootNode_def, simplified]
        fallbackKeys_def finalizeKeys_def slice_def Let_def split: option.splits)
next
  show "map_option (\<lambda>r. \<lparr>masterKey = masterKey r, masterSalt = masterSalt r\<rparr>)
       (extractSrtpKeys (Proto pk prs root)) =
     (if rejected root then None
      else case adopted root of
             None \<Rightarrow> extractKeysFromDecryptedProto (Proto pk prs root)
           | Some b \<Rightarrow>
               (let kb = (if length b = 40 then base64 (lowBytes (toString b)) else b)
                in if 30 \<le> length kb
                   then Some \<lparr>masterKey = take 16 kb, masterSalt = take 14 (drop 16 kb)\<rparr>
                   else extractKeysFromDecryptedProto (Proto pk prs root)))"
    by (simp add: extractSrtpKeys_keys [of "Proto pk prs root" root, unfolded rootNode_def, simplified]
        fallbackKeys_def finalizeKeys_def slice_def Let_def split: option.splits)
qed

theorem extractKeys_by_path_witness:
  "extractKeysFromDecryptedProto
     (Proto (Some (CKStr ''AQIDBAUGBwgJCgsMDQ4PEBESExQVFhcYGRobHB0eHyA='')) None (Node [] [] Absent))
     = Some \<lparr>masterKey = [1, 2, 3, 4, 5, 6, 7, 8, 9, 10, 11, 12, 13, 14, 15, 16],
              masterSalt = [17, 18, 19, 20, 21, 22, 23, 24, 25, 26, 27, 28, 29, 30]\<rparr> \<and>
   extractSrtpKeys (Stanza (Node ''call-key'' [] (Buf [1, 2, 3, 4, 5, 6, 7, 8, 9, 10, 11, 12, 13, 14, 15, 16, 17, 18, 19, 20, 21, 22, 23, 24, 25, 26, 27, 28, 29, 30, 31, 32])))
     = Some \<lparr>masterKey = [1, 2, 3, 4, 5, 6, 7, 8, 9, 10, 11, 12, 13, 14, 15, 16],
              masterSalt = [17, 18, 19, 20, 21, 22, 23, 24, 25, 26, 27, 28, 29, 30],
              exRelayEndpoints = []\<rparr> \<and>
   extractSrtpKeys (Stanza (Node ''call-key'' [] (Buf [1, 2, 3, 4, 5, 6, 7, 8, 9, 10]))) = None \<and>
   map_option (\<lambda>r. \<lparr>masterKey = masterKey r, masterSalt = masterSalt r\<rparr>)
       (extractSrtpKeys (Stanza nested_offer))
     = Some \<lparr>masterKey = [1, 2, 3, 4, 5, 6, 7, 8, 9, 10, 11, 12, 13, 14, 15, 16],
              masterSalt = [17, 18, 19, 20, 21, 22, 23, 24, 25, 26, 27, 28, 29, 30]\<rparr> \<and>
   extractSrtpKeys (Stanza (Node ''offer'' []
       (Children [Node ''call-key'' [] (Buf [1, 2, 3, 4, 5, 6, 7, 8, 9, 10])]))) = None \<and>
   extractSrtpKeys (Stanza (Node ''offer'' []
       (Children [Node ''call-key'' [] (Buf [1, 2, 3, 4, 5, 6, 7, 8, 9, 10, 11, 12, 13, 14, 15, 16, 17, 18, 19, 20, 21, 22, 23, 24, 25, 26, 27, 28, 29, 30, 31, 32]),
                  Node ''token'' [(''id'', ''1'')] (Child (Node ''x'' [] Absent))]))) = None \<and>
   map_option (\<lambda>r. \<lparr>masterKey = masterKey r, masterSalt = masterSalt r\<rparr>)
       (extractSrtpKeys (Proto (Some (CKBytes [1, 2, 3, 4, 5, 6, 7, 8, 9, 10, 11, 12, 13, 14, 15, 16, 17, 18, 19, 20, 21, 22, 23, 24, 25, 26, 27, 28, 29, 30, 31, 32])) None (Node [] [] Absent)))
     = Some \<lparr>masterKey = [1, 2, 3, 4, 5, 6, 7, 8, 9, 10, 11, 12, 13, 14, 15, 16],
              masterSalt = [17, 18, 19, 20, 21, 22, 23, 24, 25, 26, 27, 28, 29, 30]\<rparr>"
proof -
  let ?B = "[1, 2, 3, 4, 5, 6, 7, 8, 9, 10, 11, 12, 13, 14, 15, 16, 17, 18, 19, 20, 21, 22, 23, 24, 25, 26, 27, 28, 29, 30, 31, 32] :: bytes"
  let ?S = "[1, 2, 3, 4, 5, 6, 7, 8, 9, 10] :: bytes"
  let ?R = "\<lparr>masterKey = [1, 2, 3, 4, 5, 6, 7, 8, 9, 10, 11, 12, 13, 14, 15, 16],
              masterSalt = [17, 18, 19, 20, 21, 22, 23, 24, 25, 26, 27, 28, 29, 30],
              exRelayEndpoints = []\<rparr> :: extracted_keys"
  let ?short = "Node ''offer'' [] (Children [Node ''call-key'' [] (Buf ?S)])"
  let ?bad = "Node ''offer'' []
       (Children [Node ''call-key'' [] (Buf ?B),
                  Node ''token'' [(''id'', ''1'')] (Child (Node ''x'' [] Absent))])"
  have b: "base64 ''AQIDBAUGBwgJCgsMDQ4PEBESExQVFhcYGRobHB0eHyA='' = ?B"
    by code_simp
  have t1: "adopted nested_offer = Some ?B" "\<not> rejected nested_offer"
    by code_simp+
  have t2: "adopted ?short = None" "\<not> rejected ?short"
    by code_simp+
  have t3: "rejected ?bad"
    by code_simp
  have t4: "adopted (Node [] [] Absent) = None" "\<not> rejected (Node [] [] Absent)"
    by code_simp+
  note i1 = extractKeys_by_path [where ck = "CKStr ''AQIDBAUGBwgJCgsMDQ4PEBESExQVFhcYGRobHB0eHyA=''"
        and blob = ?B and s = "''AQIDBAUGBwgJCgsMDQ4PEBESExQVFhcYGRobHB0eHyA=''" and rls = None and nd = "Node [] [] Absent"
        and tg = "''call-key''" and c = "Buf ?B" and as = "[]"
        and n = nested_offer and pk = "Some (CKBytes ?B)" and prs = None and root = "Node [] [] Absent"]
  note i2 = extractKeys_by_path [where ck = "CKBytes ?B" and blob = ?S
        and tg = "''call-key''" and c = "Buf ?S" and as = "[]" and n = ?short]
  note i3 = extractKeys_by_path [where ck = "CKBytes ?B" and blob = ?B and rls = None
        and nd = "Node [] [] Absent" and n = ?bad]
  show ?thesis
    using i1 i2 i3 by (simp add: b t1 t2 t3 t4)
qed

subsection \<open>Signalling\<close>

lemma catch_Ok: "catch x = Ok (state_of x)"
  by (cases x) simp_all

lemma terminateCall_keeps:
  "activeCalls (state_of (terminateCall B cid jid reason g)) = activeCalls g \<and>
   handlerEvents (state_of (terminateCall B cid jid reason g)) = handlerEvents g \<and>
   activeBridges (state_of (terminateCall B cid jid reason g)) = activeBridges g"
  by (simp add: terminateCall_def newTag_def sockSend_def)

lemma endBridge_keeps:
  "activeCalls (endBridge cid g) = activeCalls g \<and> handlerEvents (endBridge cid g) = handlerEvents g"
  by (simp add: endBridge_def emitBridge_def split: option.splits)

lemma endBridge_removes: "activeBridges (endBridge cid g) cid = None"
  by (simp add: endBridge_def emitBridge_def split: option.splits)

lemma endCall_eq:
  "endCall B cid jid g =
     Ok (endBridge cid (emitHandler ''call:ended'' cid
       ((case nonEmpty (orElse jid (map_option callFrom (activeCalls g cid))) of
           Some rj \<Rightarrow> state_of (terminateCall B cid rj ''hangup'' g)
         | None \<Rightarrow> g)\<lparr>activeCalls := (activeCalls
             (case nonEmpty (orElse jid (map_option callFrom (activeCalls g cid))) of
           Some rj \<Rightarrow> state_of (terminateCall B cid rj ''hangup'' g)
         | None \<Rightarrow> g))(cid := None)\<rparr>)))"
  by (cases "nonEmpty (orElse jid (map_option callFrom (activeCalls g cid)))")
     (simp_all add: endCall_def Let_def catch_Ok)

text \<open>
  C9. \<open>endCall\<close> always returns, and afterwards the call is out of the registry of
  active calls, \<open>call:ended\<close> has been emitted (which also ends the bridge), whatever
  the socket did with the TERMINATE stanza: a rejected send is caught and logged.
\<close>

theorem endCall_clears_session:
  "\<exists>g'. endCall B cid jid g = Ok g' \<and> activeCalls g' cid = None \<and>
         (''call:ended'', cid) \<in> set (handlerEvents g') \<and> activeBridges g' cid = None"
  unfolding endCall_eq
  by (simp add: endBridge_keeps endBridge_removes emitHandler_def)

theorem endCall_clears_session_witness:
  "\<exists>g'. endCall failing_env ''CALL0002'' None ringing_gateway = Ok g' \<and>
         activeCalls g' ''CALL0002'' = None \<and>
         (''call:ended'', ''CALL0002'') \<in> set (handlerEvents g') \<and>
         activeBridges g' ''CALL0002'' = None"
  using endCall_clears_session [of failing_env "''CALL0002''" None ringing_gateway]
  by simp

lemma acceptCall_noop:
  assumes "sock g" and "callState g cid = Some st" and "accepted st"
  shows "acceptCall B cid jid cr g = Ok g"
  using assms by (simp add: acceptCall_def)

lemma acceptCall_first:
  assumes "sock g" and "callState g cid = Some st" and "\<not> accepted st" and "\<forall>n. \<not> sendFails B n"
  shows "acceptCall B cid jid cr g =
           Ok (g\<lparr>tags := tags g + 3, attempts := attempts g + 3,
                 sent := sent g @ [preacceptNode (generateMessageTag B (tags g)) jid cid,
                                   acceptNode (generateMessageTag B (tags g + 1)) (jidNormalizedUser B jid) cid,
                                   readyNode (generateMessageTag B (tags g + 2)) jid cid],
                 clientEvents := clientEvents g @ [(''call:preaccept-sent'', cid), (''call:accepted'', cid)],
                 callState := (callState g)(cid \<mapsto> st\<lparr>accepted := True\<rparr>)\<rparr>)"
  using assms
  by (simp add: acceptCall_def sendPreaccept_def sendReady_def sendNode_def sockSend_def newTag_def
      emitClient_def markAccepted_def Let_def)

text \<open>
  C6. Once the session is marked accepted, \<open>acceptCall\<close> returns at once and changes
  nothing. For a session that is not yet accepted, on a connected socket that takes every
  stanza, two invocations in a row send PREACCEPT, ACCEPT and READY once: the first sends
  them and sets the flag, the second is the no-op.
\<close>

theorem acceptCall_idempotent:
  "(sock g \<and> callState g cid = Some st \<and> accepted st \<longrightarrow> acceptCall B cid jid cr g = Ok g) \<and>
   (sock g \<and> callState g cid = Some st \<and> \<not> accepted st \<and> (\<forall>n. \<not> sendFails B n) \<longrightarrow>
      (\<exists>g1. acceptCall B cid jid cr g = Ok g1 \<and> acceptCall B cid jid cr g1 = Ok g1 \<and>
            sent g1 = sent g @
              [preacceptNode (generateMessageTag B (tags g)) jid cid,
               acceptNode (generateMessageTag B (tags g + 1)) (jidNormalizedUser B jid) cid,
               readyNode (generateMessageTag B (tags g + 2)) jid cid]))"
proof (intro conjI impI)
  assume "sock g \<and> callState g cid = Some st \<and> accepted st"
  then show "acceptCall B cid jid cr g = Ok g"
    using acceptCall_noop by blast
next
  assume a: "sock g \<and> callState g cid = Some st \<and> \<not> accepted st \<and> (\<forall>n. \<not> sendFails B n)"
  let ?g1 = "g\<lparr>tags := tags g + 3, attempts := attempts g + 3,
                 sent := sent g @ [preacceptNode (generateMessageTag B (tags g)) jid cid,
                                   acceptNode (generateMessageTag B (tags g + 1)) (jidNormalizedUser B jid) cid,
                                   readyNode (generateMessageTag B (tags g + 2)) jid cid],
                 clientEvents := clientEvents g @ [(''call:preaccept-sent'', cid), (''call:accepted'', cid)],
                 callState := (callState g)(cid \<mapsto> st\<lparr>accepted := True\<rparr>)\<rparr>"
  from a have first: "acceptCall B cid jid cr g = Ok ?g1"
    using acceptCall_first by blast
  have "sock ?g1" "callState ?g1 cid = Some (st\<lparr>accepted := True\<rparr>)" "accepted (st\<lparr>accepted := True\<rparr>)"
    using a by simp_all
  then have second: "acceptCall B cid jid cr ?g1 = Ok ?g1"
    by (rule acceptCall_noop)
  show "\<exists>g1. acceptCall B cid jid cr g = Ok g1 \<and> acceptCall B cid jid cr g1 = Ok g1 \<and>
            sent g1 = sent g @
              [preacceptNode (generateMessageTag B (tags g)) jid cid,
               acceptNode (generateMessageTag B (tags g + 1)) (jidNormalizedUser B jid) cid,
               readyNode (generateMessageTag B (tags g + 2)) jid cid]"
    using first second by (intro exI [of _ ?g1]) simp
qed

theorem acceptCall_idempotent_witness:
  "\<exists>g1. acceptCall stub_env ''CALL0002'' ''5511999999999:7@s.whatsapp.net'' None ringing_gateway = Ok g1 \<and>
     acceptCall stub_env ''CALL0002'' ''5511999999999:7@s.whatsapp.net'' None g1 = Ok g1 \<and>
     sent g1 =
       [preacceptNode (generateMessageTag stub_env 0) ''5511999999999:7@s.whatsapp.net'' ''CALL0002'',
        acceptNode (generateMessageTag stub_env 1)
          (jidNormalizedUser stub_env ''5511999999999:7@s.whatsapp.net'') ''CALL0002'',
        readyNode (generateMessageTag stub_env 2) ''5511999999999:7@s.whatsapp.net'' ''CALL0002'']"
proof -
  have h: "sock ringing_gateway \<and>
      callState ringing_gateway ''CALL0002''
        = Some \<lparr>gotTransport = False, gotRelay = False, accepted = False\<rparr> \<and>
      \<not> accepted \<lparr>gotTransport = False, gotRelay = False, accepted = False\<rparr> \<and>
      (\<forall>n. \<not> sendFails stub_env n)"
    by (simp add: ringing_gateway_def newGateway_def stub_env_def)
  have t: "tags ringing_gateway = 0" "sent ringing_gateway = []"
    by (simp_all add: ringing_gateway_def newGateway_def)
  show ?thesis
    using acceptCall_idempotent [of ringing_gateway "''CALL0002''"
        "\<lparr>gotTransport = False, gotRelay = False, accepted = False\<rparr>" stub_env
        "''5511999999999:7@s.whatsapp.net''" None] h
    by (simp add: t numeral_2_eq_2)
qed

lemma isCallStanza_nodes [simp]:
  "isCallStanza ''ringing'' c (ringingNode mid jid cid) = (cid = c)"
  "isCallStanza ''ringing'' c (preacceptNode mid jid cid) = False"
  "isCallStanza ''ringing'' c (acceptNode mid jid cid) = False"
  "isCallStanza ''ringing'' c (readyNode mid jid cid) = False"
  "isCallStanza ''ringing'' c (rejectNode B jid cid) = False"
  "isCallStanza ''ringing'' c (receiptNode jid sid) = False"
  "isCallStanza ''ringing'' c (terminateNode mid jid cid reason) = False"
  by (auto simp: isCallStanza_def ringingNode_def preacceptNode_def acceptNode_def readyNode_def
      rejectNode_def receiptNode_def terminateNode_def)

lemma isReceipt_nodes [simp]:
  "isReceipt j (receiptNode jid sid) = (jid = j)"
  "isReceipt j (ringingNode mid jid cid) = False"
  "isReceipt j (preacceptNode mid jid cid) = False"
  "isReceipt j (acceptNode mid jid cid) = False"
  "isReceipt j (readyNode mid jid cid) = False"
  "isReceipt j (rejectNode B jid cid) = False"
  "isReceipt j (terminateNode mid jid cid reason) = False"
  by (auto simp: isReceipt_def ringingNode_def preacceptNode_def acceptNode_def readyNode_def
      rejectNode_def receiptNode_def terminateNode_def)

lemma sendRinging_counts:
  assumes "sock g" and "\<forall>n. \<not> sendFails B n"
  shows "\<exists>g'. sendRinging B cid jid g = Ok g' \<and> sock g' \<and>
           ringingCount cid g' = ringingCount cid g + 1 \<and> receiptCount j g' = receiptCount j g"
  using assms
  by (simp add: sendRinging_def sendNode_def sockSend_def newTag_def ringingCount_def receiptCount_def)

lemma sendCallReceipt_counts:
  assumes "sock g" and "\<forall>n. \<not> sendFails B n"
  shows "\<exists>g'. sendCallReceipt B jid cid g = Ok g' \<and> sock g' \<and>
           ringingCount c g' = ringingCount c g \<and> receiptCount jid g' = receiptCount jid g + 1"
  using assms
  by (simp add: sendCallReceipt_def sockSend_def newTag_def ringingCount_def receiptCount_def
      split: option.splits)

lemma handler_rejectCall_counts:
  assumes "sock g" and "\<forall>n. \<not> sendFails B n"
  shows "\<exists>g'. handler_rejectCall B cid jid g = Ok g' \<and> sock g' \<and>
           ringingCount c g' = ringingCount c g \<and> receiptCount j g' = receiptCount j g"
  using assms
  by (simp add: handler_rejectCall_def rejectCall_def sockSend_def emitClient_def emitHandler_def
      ringingCount_def receiptCount_def)

lemma acceptCall_counts:
  assumes "\<forall>n. \<not> sendFails B n"
  shows "sock (state_of (acceptCall B cid jid cr g)) = sock g \<and>
         ringingCount c (state_of (acceptCall B cid jid cr g)) = ringingCount c g \<and>
         receiptCount j (state_of (acceptCall B cid jid cr g)) = receiptCount j g"
  using assms
  by (simp add: acceptCall_def sendPreaccept_def sendReady_def sendNode_def sockSend_def newTag_def
      emitClient_def markAccepted_def Let_def ringingCount_def receiptCount_def
      split: option.splits)

lemma handler_acceptCall_counts:
  assumes "\<forall>n. \<not> sendFails B n"
  shows "sock (state_of (handler_acceptCall B cid jid cr g)) = sock g \<and>
         ringingCount c (state_of (handler_acceptCall B cid jid cr g)) = ringingCount c g \<and>
         receiptCount j (state_of (handler_acceptCall B cid jid cr g)) = receiptCount j g"
proof -
  have "sock (state_of (bindO (acceptCall B cid rj cr' g) (\<lambda>g1. Ok (emitHandler ''call:accepted'' cid g1)))) = sock g \<and>
        ringingCount c (state_of (bindO (acceptCall B cid rj cr' g) (\<lambda>g1. Ok (emitHandler ''call:accepted'' cid g1)))) = ringingCount c g \<and>
        receiptCount j (state_of (bindO (acceptCall B cid rj cr' g) (\<lambda>g1. Ok (emitHandler ''call:accepted'' cid g1)))) = receiptCount j g"
    for rj cr'
    using acceptCall_counts [OF assms, of cid rj cr' g c j]
    by (cases "acceptCall B cid rj cr' g")
       (simp_all add: emitHandler_def ringingCount_def receiptCount_def)
  then show ?thesis
    by (simp add: handler_acceptCall_def Let_def split: option.splits)
qed

lemma endBridge_counts:
  "sock (endBridge cid g) = sock g \<and> ringingCount c (endBridge cid g) = ringingCount c g \<and>
   receiptCount j (endBridge cid g) = receiptCount j g"
  by (simp add: endBridge_def emitBridge_def ringingCount_def receiptCount_def split: option.splits)

lemma bridgeCall_begin_counts:
  "sock (bridgeCall_begin B call g) = sock g \<and>
   ringingCount c (bridgeCall_begin B call g) = ringingCount c g \<and>
   receiptCount j (bridgeCall_begin B call g) = receiptCount j g"
  by (simp add: bridgeCall_begin_def Let_def ringingCount_def receiptCount_def)

lemma sipCalls_counts:
  "ringingCount c (g\<lparr>sipCalls := x\<rparr>) = ringingCount c g"
  "receiptCount j (g\<lparr>sipCalls := x\<rparr>) = receiptCount j g"
  by (simp_all add: ringingCount_def receiptCount_def)

lemma bridgeCall_resume_counts:
  assumes "\<forall>n. \<not> sendFails B n"
  shows "sock (bridgeCall_resume B call g) = sock g \<and>
         ringingCount c (bridgeCall_resume B call g) = ringingCount c g \<and>
         receiptCount j (bridgeCall_resume B call g) = receiptCount j g"
proof (cases "activeBridges g (callId call)")
  case None
  then show ?thesis by (simp add: bridgeCall_resume_def)
next
  case (Some b)
  show ?thesis
  proof (cases "setupMedia B call b (entropy g)")
    case (Inl e)
    with Some show ?thesis by (simp add: bridgeCall_resume_def endBridge_counts)
  next
    case (Inr r)
    obtain b1 n1 where r: "r = (b1, n1)" by (cases r)
    let ?g1 = "emitBridge ''bridge:created'' (callId call)
                 (g\<lparr>entropy := n1, activeBridges := (activeBridges g)(callId call \<mapsto> b1)\<rparr>)"
    let ?g2 = "state_of (handler_acceptCall B (callId call) (Some (callFrom call))
                 (evCallCreator call) ?g1)"
    have g1: "sock ?g1 = sock g \<and> ringingCount c ?g1 = ringingCount c g \<and>
        receiptCount j ?g1 = receiptCount j g"
      by (simp add: emitBridge_def ringingCount_def receiptCount_def)
    have g2: "sock ?g2 = sock g \<and> ringingCount c ?g2 = ringingCount c g \<and>
        receiptCount j ?g2 = receiptCount j g"
      using handler_acceptCall_counts [OF assms, of "callId call" "Some (callFrom call)"
          "evCallCreator call" ?g1 c j] g1 by simp
    have res: "bridgeCall_resume B call g =
        (if makeCallFails B (sipSessionId b1) then endBridge (callId call) ?g2
         else ?g2\<lparr>sipCalls := sipCalls ?g2 @
                [(phoneNumber (callFrom call), sipSessionId b1, localPort (mediaBridge b1))]\<rparr>)"
      using Some Inr r by (simp add: bridgeCall_resume_def Let_def)
    show ?thesis
      unfolding res using g2
      by (simp add: endBridge_counts sipCalls_counts)
  qed
qed

lemma pollOffer_None: "decryptedOffers g cid = None \<Longrightarrow> pollOffer n g cid = None"
  by (induction n) simp_all

lemma cached_offer:
  "(case decryptedOffers g cid of Some d \<Rightarrow> Some d | None \<Rightarrow> pollOffer 3 g cid)
     = decryptedOffers g cid"
  by (cases "decryptedOffers g cid") (simp_all add: pollOffer_None)

lemma handler_offerTail_counts:
  assumes "sock g" and "\<forall>n. \<not> sendFails B n"
  shows "\<exists>g'. handler_offerTail B call g = Ok g' \<and> sock g' \<and>
           ringingCount (callId call) g' = ringingCount (callId call) g + 1 \<and>
           receiptCount (callFrom call) g' = receiptCount (callFrom call) g + 1"
proof -
  from sendRinging_counts [OF assms, of "callId call" "callFrom call" "callFrom call"]
  obtain g1 where g1: "sendRinging B (callId call) (callFrom call) g = Ok g1" "sock g1"
      "ringingCount (callId call) g1 = ringingCount (callId call) g + 1"
      "receiptCount (callFrom call) g1 = receiptCount (callFrom call) g" by blast
  from sendCallReceipt_counts [OF g1(2) assms(2), of "callFrom call" "callId call" "callId call"]
  obtain g2 where g2: "sendCallReceipt B (callFrom call) (callId call) g1 = Ok g2" "sock g2"
      "ringingCount (callId call) g2 = ringingCount (callId call) g1"
      "receiptCount (callFrom call) g2 = receiptCount (callFrom call) g1 + 1" by blast
  show ?thesis
  proof (cases "isVideo call")
    case False
    then show ?thesis
      using g1 g2 by (simp add: handler_offerTail_def)
  next
    case True
    from handler_rejectCall_counts [OF g2(2) assms(2), of "callId call" "callFrom call"
        "callId call" "callFrom call"]
    obtain g3 where "handler_rejectCall B (callId call) (callFrom call) g2 = Ok g3" "sock g3"
      "ringingCount (callId call) g3 = ringingCount (callId call) g2"
      "receiptCount (callFrom call) g3 = receiptCount (callFrom call) g2" by blast
    with True show ?thesis
      using g1 g2 by (simp add: handler_offerTail_def)
  qed
qed

text \<open>
  C10. On a connected socket that takes every stanza, the offer of a call (video or not)
  leaves two more RINGING stanzas for the call and two more call receipts to the caller
  in the list of sent stanzas: one pair from the handler's listener, one from the client
  itself. Neither order of the bridge's continuation changes that.
\<close>

theorem offer_rings_twice:
  assumes "sock g" and "\<forall>n. \<not> sendFails B n"
  shows "\<exists>g'. onCallOffer B bridgeFirst w g = Ok g' \<and>
           ringingCount (wid w) g' = ringingCount (wid w) g + 2 \<and>
           receiptCount (callFrom (mkCallEvent B w (decryptedOffers g (wid w)))) g'
             = receiptCount (callFrom (mkCallEvent B w (decryptedOffers g (wid w)))) g + 2"
proof -
  let ?call = "mkCallEvent B w (decryptedOffers g (wid w))"
  let ?j = "callFrom ?call"
  let ?g1 = "(case (case decryptedOffers g (wid w) of None \<Rightarrow> None
                      | Some d \<Rightarrow> extractRteFromOffer (body d)) of
                None \<Rightarrow> g
              | Some rte \<Rightarrow> setPublicInfo (fst rte) (snd rte) g)"
  let ?g2 = "emitClient ''call:offer'' (wid w)
                 (?g1\<lparr>callState := (callState ?g1)(wid w \<mapsto>
                        \<lparr>gotTransport = False, gotRelay = False, accepted = False\<rparr>)\<rparr>)"
  let ?g3 = "emitHandler ''call:incoming'' (wid w)
                 (?g2\<lparr>activeCalls := (activeCalls ?g2)(callId ?call \<mapsto> ?call)\<rparr>)"
  let ?g4 = "bridgeCall_begin B ?call ?g3"
  let ?g5 = "if bridgeFirst then bridgeCall_resume B ?call ?g4 else ?g4"
  have cid: "callId ?call = wid w"
    by (simp add: mkCallEvent_def Let_def)
  have g3: "sock ?g3 \<and> ringingCount (wid w) ?g3 = ringingCount (wid w) g \<and>
      receiptCount ?j ?g3 = receiptCount ?j g"
    using assms(1)
    by (simp add: emitClient_def emitHandler_def setPublicInfo_def ringingCount_def
        receiptCount_def split: option.splits)
  have g5: "sock ?g5 \<and> ringingCount (wid w) ?g5 = ringingCount (wid w) g \<and>
      receiptCount ?j ?g5 = receiptCount ?j g"
    using g3 bridgeCall_begin_counts [of B ?call ?g3 "wid w" ?j]
      bridgeCall_resume_counts [OF assms(2), of ?call ?g4 "wid w" ?j]
    by simp
  from g5 have s5: "sock ?g5" by blast
  from handler_offerTail_counts [OF s5 assms(2), of ?call]
  obtain g6 where g6: "handler_offerTail B ?call ?g5 = Ok g6" "sock g6"
      "ringingCount (wid w) g6 = ringingCount (wid w) ?g5 + 1"
      "receiptCount ?j g6 = receiptCount ?j ?g5 + 1"
    unfolding cid by blast
  from sendRinging_counts [OF g6(2) assms(2), of "wid w" ?j ?j]
  obtain g7 where g7: "sendRinging B (wid w) ?j g6 = Ok g7" "sock g7"
      "ringingCount (wid w) g7 = ringingCount (wid w) g6 + 1"
      "receiptCount ?j g7 = receiptCount ?j g6" by blast
  from sendCallReceipt_counts [OF g7(2) assms(2), of ?j "wid w" "wid w"]
  obtain g8 where g8: "sendCallReceipt B ?j (wid w) g7 = Ok g8" "sock g8"
      "ringingCount (wid w) g8 = ringingCount (wid w) g7"
      "receiptCount ?j g8 = receiptCount ?j g7 + 1" by blast
  let ?g9 = "if bridgeFirst then g8 else bridgeCall_resume B ?call g8"
  have g9: "ringingCount (wid w) ?g9 = ringingCount (wid w) g8 \<and>
      receiptCount ?j ?g9 = receiptCount ?j g8"
    using bridgeCall_resume_counts [OF assms(2), of ?call g8 "wid w" ?j] by simp
  have res: "onCallOffer B bridgeFirst w g = Ok ?g9"
    unfolding onCallOffer_def cached_offer Let_def
    by (simp only: g6(1) bindO.simps g7(1) g8(1))
  show ?thesis
    unfolding res using g5 g6 g7 g8 g9 by simp
qed

theorem offer_rings_twice_witness:
  "(\<exists>g'. onCallOffer stub_env False audio_offer newGateway = Ok g' \<and>
      ringingCount ''CALL0002'' g' = 2 \<and>
      receiptCount ''5511999999999:7@s.whatsapp.net'' g' = 2) \<and>
   (\<exists>g'. onCallOffer stub_env True video_offer newGateway = Ok g' \<and>
      ringingCount ''CALL0001'' g' = 2 \<and>
      receiptCount ''5511999999999:7@s.whatsapp.net'' g' = 2)"
proof -
  have h: "sock newGateway" "\<forall>n. \<not> sendFails stub_env n"
    by (simp_all add: newGateway_def stub_env_def)
  have c: "ringingCount cid newGateway = 0" "receiptCount j newGateway = 0" for cid j
    by (simp_all add: ringingCount_def receiptCount_def newGateway_def)
  have j: "callFrom (mkCallEvent stub_env audio_offer (decryptedOffers newGateway ''CALL0002''))
             = ''5511999999999:7@s.whatsapp.net''"
      "callFrom (mkCallEvent stub_env video_offer (decryptedOffers newGateway ''CALL0001''))
             = ''5511999999999:7@s.whatsapp.net''"
    by (simp_all add: mkCallEvent_def newGateway_def audio_offer_def video_offer_def
        orElse_def nonEmpty_def)
  have w: "wid audio_offer = ''CALL0002''" "wid video_offer = ''CALL0001''"
    by (simp_all add: audio_offer_def video_offer_def)
  show ?thesis
    using offer_rings_twice [OF h, of False audio_offer] offer_rings_twice [OF h, of True video_offer]
    unfolding w j c by (simp add: numeral_2_eq_2)
qed

lemma extractSrtpKeys_NoOffer: "extractSrtpKeys NoOffer = None"
  by (simp add: extractSrtpKeys_def scanOffer_def rootNode_def)

lemma isCallStanza_kinds [simp]:
  "isCallStanza ''reject'' c (rejectNode B jid cid) = (cid = c)"
  "isCallStanza ''preaccept'' c (preacceptNode mid jid cid) = (cid = c)"
  by (auto simp: isCallStanza_def rejectNode_def preacceptNode_def)

text \<open>
  C7. A video offer is rejected and leaves the registry of active calls, but the handler
  emits \<open>call:incoming\<close> before it looks at \<open>isVideo\<close>, the bridge does not look at it
  at all, and \<open>acceptCall\<close> does not need the call in the registry when it is given the
  JID: the bridge runs the accept flow, and a PREACCEPT for the rejected call is sent, in
  either order of the bridge's continuation.
\<close>

theorem video_offer_still_preaccepted:
  assumes "sock g" and "\<forall>n. \<not> sendFails B n" and "wisVideo w"
    and "decryptedOffers g (wid w) = None" and "wfrom w \<noteq> []"
  shows "\<exists>g'. onCallOffer B bridgeFirst w g = Ok g' \<and>
           list_ex (isCallStanza ''reject'' (wid w)) (sent g') \<and>
           activeCalls g' (wid w) = None \<and>
           list_ex (isCallStanza ''preaccept'' (wid w)) (sent g')"
  using assms
  by (cases bridgeFirst)
     (simp_all add: onCallOffer_def Let_def pollOffer_None mkCallEvent_def orElse_def nonEmpty_def
      emitClient_def emitHandler_def bridgeCall_begin_def bridgeCall_resume_def setupMedia_def
      offerBody_def extractSrtpKeys_NoOffer handler_offerTail_def sendRinging_def sendNode_def
      sockSend_def newTag_def sendCallReceipt_def handler_rejectCall_def rejectCall_def
      handler_acceptCall_def acceptCall_def sendPreaccept_def sendReady_def markAccepted_def
      endBridge_def emitBridge_def)

theorem video_offer_still_preaccepted_witness:
  "\<exists>g'. onCallOffer stub_env False video_offer newGateway = Ok g' \<and>
         list_ex (isCallStanza ''reject'' ''CALL0001'') (sent g') \<and>
         activeCalls g' ''CALL0001'' = None \<and>
         list_ex (isCallStanza ''preaccept'' ''CALL0001'') (sent g')"
proof -
  have h: "sock newGateway" "\<forall>n. \<not> sendFails stub_env n" "wisVideo video_offer"
      "decryptedOffers newGateway (wid video_offer) = None" "wfrom video_offer \<noteq> []"
    by (simp_all add: newGateway_def stub_env_def video_offer_def)
  have w: "wid video_offer = ''CALL0001''"
    by (simp add: video_offer_def)
  show ?thesis
    using video_offer_still_preaccepted [OF h, of False] unfolding w .
qed

end
